theory Spec2Isabelle
  imports Complex_Main "HOL-Library.Sublist" "HOL-Library.Word"
begin

section \<open>Strings\<close>

text \<open>
  A Python \<open>str\<close> is a sequence of Unicode code points, so it is modelled as a list of
  naturals: \<open>len\<close> and slicing count code points, and \<open>str.strip\<close> looks at code
  points beyond 255. A literal of the source is written \<open>S ''...''\<close>.
\<close>

type_synonym pystr = "nat list"

type_synonym bytes = "8 word list"

definition S :: "string \<Rightarrow> pystr" where
  "S cs = map of_char cs"

text \<open>
  \<open>str.isspace\<close> on one code point, as \<open>str.strip()\<close> without argument uses it:
  the ASCII whitespace 0x09-0x0D, 0x1C-0x1F and 0x20, and the Unicode whitespace
  code points.
\<close>

definition isspace :: "nat \<Rightarrow> bool" where
  "isspace c \<longleftrightarrow>
     (9 \<le> c \<and> c \<le> 13) \<or> (28 \<le> c \<and> c \<le> 32) \<or> c = 133 \<or> c = 160 \<or> c = 5760 \<or>
     (8192 \<le> c \<and> c \<le> 8202) \<or> c = 8232 \<or> c = 8233 \<or> c = 8239 \<or> c = 8287 \<or>
     c = 12288"

text \<open>\<open>c.strip()\<close>: leading and trailing whitespace removed.\<close>

definition str_strip :: "pystr \<Rightarrow> pystr" where
  "str_strip s = rev (dropWhile isspace (rev (dropWhile isspace s)))"

text \<open>
  \<open>text.split("\n\n")\<close>: the text is cut at the leftmost occurrence of two newline
  characters (code point 10), then the rest is split the same way; occurrences do not
  overlap. The first argument is the piece read so far. A text without separator, the
  empty one too, gives one piece.
\<close>

fun split_nn :: "pystr \<Rightarrow> pystr \<Rightarrow> pystr list" where
  "split_nn cur (a # b # rest) =
     (if a = 10 \<and> b = 10 then cur # split_nn [] rest else split_nn (cur @ [a]) (b # rest))"
| "split_nn cur [a] = [cur @ [a]]"
| "split_nn cur [] = [cur]"

definition str_split_nn :: "pystr \<Rightarrow> pystr list" where
  "str_split_nn text = split_nn [] text"

text \<open>
  The chunker of \<open>ingest_json\<close>:
  \<^verbatim>\<open>[c.strip() for c in text.split("\n\n") if c.strip()]\<close>.
  An empty string is falsy.
\<close>

definition chunker :: "pystr \<Rightarrow> pystr list" where
  "chunker text = map str_strip (filter (\<lambda>c. str_strip c \<noteq> []) (str_split_nn text))"

text \<open>\<open>"\n\n".join(ps)\<close>.\<close>

fun join_nn :: "pystr list \<Rightarrow> pystr" where
  "join_nn [] = []"
| "join_nn [p] = p"
| "join_nn (p # q # ps) = p @ 10 # 10 # join_nn (q # ps)"

text \<open>\<open>str(i)\<close> of a non-negative integer, as an f-string renders it: decimal digits.\<close>

function str_nat :: "nat \<Rightarrow> pystr" where
  "str_nat n = (if n < 10 then [48 + n] else str_nat (n div 10) @ [48 + n mod 10])"
  by pat_completeness auto
termination
  by (relation "measure (\<lambda>n. n)") auto

declare str_nat.simps [simp del]

section \<open>Values, requests and errors\<close>

text \<open>
  The handlers return dict literals, which the framework serialises as JSON. A dict is an
  association list in the order the literal is written; \<open>dict_get\<close> reads a key.
\<close>

datatype json =
  JNull
| JBool bool
| JInt int
| JStr pystr
| JList "json list"
| JDict "(pystr \<times> json) list"

definition dict_get :: "json \<Rightarrow> pystr \<Rightarrow> json option" where
  "dict_get j k = (case j of JDict kvs \<Rightarrow> map_of kvs k | _ \<Rightarrow> None)"

text \<open>
  \<open>raise HTTPException(status_code, detail)\<close> is the error the handler answers with.
  Any other exception leaves the handler uncaught (the framework answers 500); it is
  kept with the name of its class.
\<close>

datatype error =
  HTTPException int pystr
| Uncaught string

record IngestItem =
  client :: pystr
  filename :: pystr
  content_b64 :: pystr

record AskRequest =
  client :: pystr
  q :: pystr
  top_k :: int

section \<open>The vector store\<close>

text \<open>
  The store is an external collaborator: a key-value store of vectors with a
  query-by-similarity operation. It is modelled as a map from partition names to
  partitions, a partition as a map from chunk ids to entries. The code never does
  arithmetic on an embedding, so a vector is a list of reals. The metadata of an entry is
  a dict of strings.
\<close>

type_synonym meta = "pystr \<rightharpoonup> pystr"

record entry =
  document :: pystr
  metadata :: meta
  embedding :: "real list"

type_synonym collection = "pystr \<rightharpoonup> entry"

text \<open>What \<open>col.query(..., include=["metadatas", "documents"])\<close> returns.\<close>

record query_result =
  documents :: "pystr list list"
  metadatas :: "meta list list"

section \<open>Remote capabilities and configuration\<close>

text \<open>
  A response of \<open>requests.post\<close>: its status, its body, and \<open>parsed\<close>, the value the
  caller reads out of \<open>resp.json()\<close> (\<open>None\<close> when reading it raises): for the
  embeddings \<^verbatim>\<open>[d["embedding"] for d in data["data"]]\<close>, for the chat completion
  \<^verbatim>\<open>j["choices"][0]["message"]["content"]\<close>.
\<close>

record 'a response =
  status_code :: int
  resp_text :: pystr
  parsed :: "'a option"

record message =
  role :: pystr
  content :: pystr

text \<open>The remote calls a request makes, in order: what a call-count mock would record.\<close>

datatype call =
  EmbedCall pystr "pystr list"
| ChatCall pystr "message list" real

text \<open>
  The configuration read from the environment, and the collaborators the source calls
  but does not define:
  \<^item> \<open>str_lower\<close>: \<open>str.lower\<close>;
  \<^item> \<open>b64decode\<close>: \<open>base64.b64decode\<close>, \<open>Inl\<close> with the message when it raises;
  \<^item> \<open>decode_utf8_ignore\<close>: \<open>bytes.decode("utf-8", errors="ignore")\<close>, which never
    raises;
  \<^item> \<open>post_embeddings\<close>: the embeddings endpoint, from model and input;
  \<^item> \<open>post_chat\<close>: the chat endpoint, from model, messages and temperature;
  \<^item> \<open>chroma_query\<close>: the similarity query of the store on a partition, for one query
    text and \<open>n_results\<close>: for each query text the ranked hits, each a document with its
    metadata (the store returns them as two parallel lists of lists); \<open>None\<close> when the
    store raises;
  \<^item> \<open>chroma_accepts\<close>: whether the store accepts an upsert batch (its own validation
    of ids and vectors); a refused batch raises and writes nothing;
  \<^item> \<open>chroma_creates\<close>: whether the store accepts a name for a new partition (its own
    validation of names); \<open>create_collection\<close> raises for a refused name and creates
    nothing.

  Every remote call returns a response: a call that gets none (a timeout, a refused
  connection) raises inside \<open>requests.post\<close> and is outside the model, as is a store
  that cannot be reached.
\<close>

record env =
  ACTION_KEY :: "pystr option"
  EMBED_MODEL :: pystr
  CHAT_MODEL :: pystr
  str_lower :: "pystr \<Rightarrow> pystr"
  b64decode :: "pystr \<Rightarrow> pystr + bytes"
  decode_utf8_ignore :: "bytes \<Rightarrow> pystr"
  post_embeddings :: "pystr \<Rightarrow> pystr list \<Rightarrow> (real list list) response"
  post_chat :: "pystr \<Rightarrow> message list \<Rightarrow> real \<Rightarrow> pystr response"
  chroma_query :: "collection \<Rightarrow> pystr \<Rightarrow> int \<Rightarrow> (pystr \<times> meta) list list option"
  chroma_accepts :: "collection \<Rightarrow> pystr list \<Rightarrow> real list list \<Rightarrow> bool"
  chroma_creates :: "pystr \<Rightarrow> bool"

text \<open>The state a request runs in: the persistent store and the remote calls made.\<close>

record state =
  store :: "pystr \<rightharpoonup> collection"
  calls :: "call list"

section \<open>Collection resolver\<close>

definition collection_name :: "env \<Rightarrow> pystr \<Rightarrow> pystr" where
  "collection_name e client_id = str_lower e (S ''docs_'' @ client_id)"

text \<open>
  \<open>get_collection\<close> raises when no partition has the name, and the handler catches
  it; \<open>create_collection\<close> then adds an empty one, or raises when the store refuses
  the name: nothing catches that, and the result is \<open>None\<close>. The handle returned is
  the name of the partition.
\<close>

definition ensure_collection :: "env \<Rightarrow> state \<Rightarrow> pystr \<Rightarrow> (pystr \<times> state) option" where
  "ensure_collection e s client_id =
     (let name = collection_name e client_id in
      case store s name of
        Some col \<Rightarrow> Some (name, s)
      | None \<Rightarrow>
          if chroma_creates e name
          then Some (name, s\<lparr>store := (store s)(name \<mapsto> Map.empty)\<rparr>)
          else None)"

definition the_col :: "state \<Rightarrow> pystr \<Rightarrow> collection" where
  "the_col s name = (case store s name of Some col \<Rightarrow> col | None \<Rightarrow> Map.empty)"

text \<open>\<open>col.count()\<close>.\<close>

definition col_count :: "state \<Rightarrow> pystr \<Rightarrow> int" where
  "col_count s name = int (card (dom (the_col s name)))"

text \<open>
  \<open>col.query(query_texts=[q], n_results=top_k, include=["metadatas", "documents"])\<close>.
\<close>

definition col_query :: "env \<Rightarrow> state \<Rightarrow> pystr \<Rightarrow> pystr \<Rightarrow> int \<Rightarrow> query_result option" where
  "col_query e s name qtext n =
     map_option (\<lambda>hss. \<lparr>documents = map (map fst) hss, metadatas = map (map snd) hss\<rparr>)
       (chroma_query e (the_col s name) qtext n)"

text \<open>
  \<open>col.upsert(ids, documents, metadatas, embeddings)\<close>: the four lists are parallel; each
  id is written with its document, metadata and vector, over an entry of the same id.
  \<open>None\<close> when the store raises.
\<close>

fun upsert_entries :: "collection \<Rightarrow> (pystr \<times> pystr \<times> meta \<times> real list) list \<Rightarrow> collection" where
  "upsert_entries col [] = col"
| "upsert_entries col ((i, d, m, v) # rest) =
     upsert_entries (col(i \<mapsto> \<lparr>document = d, metadata = m, embedding = v\<rparr>)) rest"

definition col_upsert ::
  "env \<Rightarrow> state \<Rightarrow> pystr \<Rightarrow> pystr list \<Rightarrow> pystr list \<Rightarrow> meta list \<Rightarrow> real list list \<Rightarrow> state option" where
  "col_upsert e s name ids docs metas embs =
     (if length docs = length ids \<and> length metas = length ids \<and> length embs = length ids \<and>
         chroma_accepts e (the_col s name) ids embs
      then Some (s\<lparr>store := (store s)(name \<mapsto>
             upsert_entries (the_col s name) (zip ids (zip docs (zip metas embs))))\<rparr>)
      else None)"

section \<open>Helpers\<close>

text \<open>
  \<open>if ACTION_KEY and x_api_key != ACTION_KEY\<close>: an unset variable (\<open>None\<close>) and an
  empty string are both falsy.
\<close>

definition check_action_key :: "env \<Rightarrow> pystr option \<Rightarrow> error + unit" where
  "check_action_key e x_api_key =
     (if (case ACTION_KEY e of None \<Rightarrow> False | Some k \<Rightarrow> k \<noteq> []) \<and> x_api_key \<noteq> ACTION_KEY e
      then Inl (HTTPException 401 (S ''Invalid action key''))
      else Inr ())"

definition embed_texts :: "env \<Rightarrow> state \<Rightarrow> pystr list \<Rightarrow> (error + real list list) \<times> state" where
  "embed_texts e s texts =
     (let resp = post_embeddings e (EMBED_MODEL e) texts;
          s1 = s\<lparr>calls := calls s @ [EmbedCall (EMBED_MODEL e) texts]\<rparr>
      in if status_code resp \<noteq> 200
         then (Inl (HTTPException 502 (S ''Embed failed: '' @ resp_text resp)), s1)
         else (case parsed resp of
                 None \<Rightarrow> (Inl (Uncaught ''KeyError''), s1)
               | Some vecs \<Rightarrow> (Inr vecs, s1)))"

definition chat_messages :: "pystr \<Rightarrow> pystr \<Rightarrow> message list" where
  "chat_messages question context =
     [\<lparr>role = S ''system'',
        content = S ''You are a legal document assistant. Cite when possible.''\<rparr>,
      \<lparr>role = S ''user'',
        content = S ''Question: '' @ question @ [10, 10] @ S ''Context:'' @ [10] @ context\<rparr>]"

definition chat_answer :: "env \<Rightarrow> state \<Rightarrow> pystr \<Rightarrow> pystr \<Rightarrow> (error + pystr) \<times> state" where
  "chat_answer e s question context =
     (let messages = chat_messages question context;
          r = post_chat e (CHAT_MODEL e) messages (2 / 10);
          s1 = s\<lparr>calls := calls s @ [ChatCall (CHAT_MODEL e) messages (2 / 10)]\<rparr>
      in if status_code r \<noteq> 200
         then (Inl (HTTPException 502 (S ''Chat failed: '' @ resp_text r)), s1)
         else (case parsed r of
                 None \<Rightarrow> (Inl (Uncaught ''KeyError''), s1)
               | Some a \<Rightarrow> (Inr a, s1)))"

section \<open>Routes\<close>

definition home :: "state \<Rightarrow> (error + json) \<times> state" where
  "home s =
     (Inr (JDict [(S ''ok'', JBool True), (S ''msg'', JStr (S ''RAG API is running. See /docs.''))]), s)"

definition stats :: "env \<Rightarrow> state \<Rightarrow> pystr \<Rightarrow> (error + json) \<times> state" where
  "stats e s client_id =
     (case ensure_collection e s client_id of
        None \<Rightarrow> (Inl (Uncaught ''ValueError''), s)
      | Some (col, s1) \<Rightarrow>
          (Inr (JDict [(S ''client'', JStr client_id), (S ''count'', JInt (col_count s1 col))]), s1))"

text \<open>\<open>meta.get("filename")\<close> is \<open>None\<close> when the key is missing.\<close>

definition search_hit :: "pystr \<times> meta \<Rightarrow> json" where
  "search_hit h =
     (case h of (doc, m) \<Rightarrow>
        JDict [(S ''filename'', (case m (S ''filename'') of None \<Rightarrow> JNull | Some f \<Rightarrow> JStr f)),
               (S ''preview'', JStr (take 240 doc))])"

definition search :: "env \<Rightarrow> state \<Rightarrow> pystr \<Rightarrow> pystr \<Rightarrow> int \<Rightarrow> (error + json) \<times> state" where
  "search e s client_id qtext k =
     (case ensure_collection e s client_id of
        None \<Rightarrow> (Inl (Uncaught ''ValueError''), s)
      | Some (col, s1) \<Rightarrow>
          (case col_query e s1 col qtext k of
             None \<Rightarrow> (Inl (Uncaught ''Exception''), s1)
           | Some results \<Rightarrow>
               (case documents results of
                  [] \<Rightarrow> (Inl (Uncaught ''IndexError''), s1)
                | docs # _ \<Rightarrow>
                    (case metadatas results of
                       [] \<Rightarrow> (Inl (Uncaught ''IndexError''), s1)
                     | metas # _ \<Rightarrow>
                         (Inr (JDict [(S ''client'', JStr client_id), (S ''q'', JStr qtext),
                                      (S ''hits'', JList (map search_hit (zip docs metas)))]), s1)))))"

text \<open>The ids and metadata \<open>ingest_json\<close> builds for its chunks.\<close>

definition chunk_ids :: "pystr \<Rightarrow> nat \<Rightarrow> pystr list" where
  "chunk_ids fname n = map (\<lambda>i. fname @ S '':'' @ str_nat i) [0..<n]"

definition chunk_meta :: "pystr \<Rightarrow> meta" where
  "chunk_meta fname = [S ''filename'' \<mapsto> fname]"

definition ingest_json :: "env \<Rightarrow> state \<Rightarrow> IngestItem \<Rightarrow> pystr option \<Rightarrow> (error + json) \<times> state" where
  "ingest_json e s item x_api_key =
     (case check_action_key e x_api_key of
        Inl err \<Rightarrow> (Inl err, s)
      | Inr _ \<Rightarrow>
          (case b64decode e (content_b64 item) of
             Inl msg \<Rightarrow> (Inl (HTTPException 400 (S ''Invalid base64: '' @ msg)), s)
           | Inr content_bytes \<Rightarrow>
               (let chunks = chunker (decode_utf8_ignore e content_bytes)
                in if chunks = [] then (Inl (HTTPException 400 (S ''No text chunks'')), s)
                   else
                     (case embed_texts e s chunks of
                        (Inl err, s1) \<Rightarrow> (Inl err, s1)
                      | (Inr vecs, s1) \<Rightarrow>
                          (case ensure_collection e s1 (IngestItem.client item) of
                             None \<Rightarrow> (Inl (Uncaught ''ValueError''), s1)
                           | Some (col, s2) \<Rightarrow>
                               (let ids = chunk_ids (filename item) (length chunks);
                                    metas = map (\<lambda>_. chunk_meta (filename item)) chunks
                                in case col_upsert e s2 col ids chunks metas vecs of
                                     None \<Rightarrow> (Inl (Uncaught ''ValueError''), s2)
                                   | Some s3 \<Rightarrow>
                                       (Inr (JDict [(S ''ok'', JBool True),
                                                    (S ''client'', JStr (IngestItem.client item)),
                                                    (S ''filename'', JStr (filename item)),
                                                    (S ''added'', JInt (int (length chunks)))]),
                                        s3)))))))"

text \<open>\<open>m.get("filename", "unknown")\<close>.\<close>

definition fname_of :: "meta \<Rightarrow> pystr" where
  "fname_of m = (case m (S ''filename'') of None \<Rightarrow> S ''unknown'' | Some f \<Rightarrow> f)"

text \<open>
  The loop of \<open>ask\<close> over \<open>enumerate(zip(docs, metas), start=1)\<close>, with the context and
  the sources built so far.
\<close>

fun ask_loop :: "nat \<Rightarrow> (pystr \<times> meta) list \<Rightarrow> pystr \<times> json list \<Rightarrow> pystr \<times> json list" where
  "ask_loop i [] acc = acc"
| "ask_loop i ((d, m) # rest) (context, sources) =
     ask_loop (Suc i) rest
       (context @ S ''['' @ str_nat i @ S ''] '' @ fname_of m @ [10] @ d @ [10, 10],
        sources @ [JDict [(S ''id'', JInt (int i)), (S ''filename'', JStr (fname_of m)),
                          (S ''snippet'', JStr (take 240 d))]])"

definition ask :: "env \<Rightarrow> state \<Rightarrow> AskRequest \<Rightarrow> pystr option \<Rightarrow> (error + json) \<times> state" where
  "ask e s req x_api_key =
     (case check_action_key e x_api_key of
        Inl err \<Rightarrow> (Inl err, s)
      | Inr _ \<Rightarrow>
          (case ensure_collection e s (AskRequest.client req) of
             None \<Rightarrow> (Inl (Uncaught ''ValueError''), s)
           | Some (col, s1) \<Rightarrow>
               (case col_query e s1 col (q req) (top_k req) of
                  None \<Rightarrow> (Inl (Uncaught ''Exception''), s1)
                | Some r \<Rightarrow>
                    if documents r = [] \<or> hd (documents r) = []
                    then (Inr (JDict [(S ''answer'', JStr (S ''Not found in the provided documents.'')),
                                      (S ''sources'', JList [])]), s1)
                    else
                      (case metadatas r of
                         [] \<Rightarrow> (Inl (Uncaught ''IndexError''), s1)
                       | metas # _ \<Rightarrow>
                           (let docs = hd (documents r);
                                (context, sources) = ask_loop 1 (zip docs metas) ([], [])
                            in case chat_answer e s1 (q req) context of
                                 (Inl err, s2) \<Rightarrow> (Inl err, s2)
                               | (Inr answer, s2) \<Rightarrow>
                                   (Inr (JDict [(S ''answer'', JStr answer),
                                                (S ''sources'', JList sources)]), s2))))))"

section \<open>The specification's wording\<close>

subsection \<open>The chunker as the specification words it\<close>

text \<open>
  A piece has a paragraph boundary when two consecutive newlines occur in it.
\<close>

definition has_nn :: "pystr \<Rightarrow> bool" where
  "has_nn p \<longleftrightarrow> sublist [10, 10] p"

text \<open>
  \<open>ps\<close> is the splitting of \<open>text\<close> on paragraph boundaries: the pieces, put together
  again with the boundary between them, are the text; no piece holds a boundary; and
  each boundary is the first one after the piece before it (a piece followed by a
  boundary does not end in a newline, or a boundary would start one character earlier).
\<close>

definition is_par_split :: "pystr list \<Rightarrow> pystr \<Rightarrow> bool" where
  "is_par_split ps text \<longleftrightarrow>
     ps \<noteq> [] \<and> join_nn ps = text \<and> (\<forall>p \<in> set ps. \<not> has_nn p) \<and>
     (\<forall>p \<in> set (butlast ps). p = [] \<or> last p \<noteq> 10)"

text \<open>
  \<open>t\<close> is \<open>p\<close> with the surrounding whitespace trimmed: \<open>p\<close> is \<open>t\<close> between two runs
  of whitespace, and \<open>t\<close> neither starts nor ends with whitespace.
\<close>

definition is_trim :: "pystr \<Rightarrow> pystr \<Rightarrow> bool" where
  "is_trim t p \<longleftrightarrow>
     (\<exists>l r. p = l @ t @ r \<and> (\<forall>c \<in> set l. isspace c) \<and> (\<forall>c \<in> set r. isspace c)) \<and>
     (t = [] \<or> (\<not> isspace (hd t) \<and> \<not> isspace (last t)))"

text \<open>
  The context of \<open>ask\<close> as the specification gives it: each hit, in the order the store
  returned them, as \<open>"[<rank>] <filename>\n<document>\n\n"\<close>, ranks from 1.
\<close>

definition spec_context :: "(pystr \<times> meta) list \<Rightarrow> pystr" where
  "spec_context hs =
     concat (map (\<lambda>(i, d, m). S ''['' @ str_nat i @ S ''] '' @ fname_of m @ [10] @ d @ [10, 10])
                 (zip [1..<Suc (length hs)] hs))"

text \<open>
  The sources of \<open>ask\<close> as the claim words them: entry \<open>i\<close> is
  \<open>{rank: i, filename, snippet}\<close>, the snippet being the first 240 characters.
\<close>

definition spec_sources :: "(pystr \<times> meta) list \<Rightarrow> json list" where
  "spec_sources hs =
     map (\<lambda>(i, d, m). JDict [(S ''rank'', JInt (int i)), (S ''filename'', JStr (fname_of m)),
                              (S ''snippet'', JStr (take 240 d))])
         (zip [1..<Suc (length hs)] hs)"

text \<open>The sources as the handler builds them: the rank is under the key \<open>id\<close>.\<close>

definition id_sources :: "(pystr \<times> meta) list \<Rightarrow> json list" where
  "id_sources hs =
     map (\<lambda>(i, d, m). JDict [(S ''id'', JInt (int i)), (S ''filename'', JStr (fname_of m)),
                              (S ''snippet'', JStr (take 240 d))])
         (zip [1..<Suc (length hs)] hs)"


section \<open>The standard decoder\<close>

text \<open>
  \<open>base64.b64decode(s)\<close> of a \<open>str\<close>, without validation, as the standard library
  has it. The string must be ASCII. \<open>binascii.a2b_base64\<close> then reads the characters of
  the alphabet four at a time, three bytes for each four; it skips every character
  outside the alphabet, and a \<open>=\<close> that does not complete a group; it stops at the
  \<open>=\<close> that completes a group of two or three characters; and at the end of the input
  it raises when a group is left open. The arguments of \<open>a2b_base64\<close> are the position
  in the group, the bits left over, the padding seen and the bytes written.
\<close>

definition b64_digit :: "nat \<Rightarrow> nat option" where
  "b64_digit c =
     (if 65 \<le> c \<and> c \<le> 90 then Some (c - 65)
      else if 97 \<le> c \<and> c \<le> 122 then Some (c - 71)
      else if 48 \<le> c \<and> c \<le> 57 then Some (c + 4)
      else if c = 43 then Some 62
      else if c = 47 then Some 63
      else None)"

fun a2b_base64 :: "nat \<Rightarrow> nat \<Rightarrow> nat \<Rightarrow> bytes \<Rightarrow> pystr \<Rightarrow> pystr + bytes" where
  "a2b_base64 quad_pos leftchar pads out [] =
     (if quad_pos = 0 then Inr out
      else if quad_pos = 1
      then Inl (S ''Invalid base64-encoded string: number of data characters ('' @
                str_nat (length out div 3 * 4 + 1) @
                S '') cannot be 1 more than a multiple of 4'')
      else Inl (S ''Incorrect padding''))"
| "a2b_base64 quad_pos leftchar pads out (c # cs) =
     (if c = 61
      then (if 2 \<le> quad_pos \<and> 4 \<le> quad_pos + Suc pads then Inr out
            else a2b_base64 quad_pos leftchar (if 2 \<le> quad_pos then Suc pads else pads) out cs)
      else
        (case b64_digit c of
           None \<Rightarrow> a2b_base64 quad_pos leftchar pads out cs
         | Some d \<Rightarrow>
             if quad_pos = 0 then a2b_base64 1 d 0 out cs
             else if quad_pos = 1
             then a2b_base64 2 (d mod 16) 0 (out @ [of_nat (leftchar * 4 + d div 16)]) cs
             else if quad_pos = 2
             then a2b_base64 3 (d mod 4) 0 (out @ [of_nat (leftchar * 16 + d div 4)]) cs
             else a2b_base64 0 0 0 (out @ [of_nat (leftchar * 64 + d)]) cs))"

definition py_b64decode :: "pystr \<Rightarrow> pystr + bytes" where
  "py_b64decode t =
     (if \<exists>c \<in> set t. 127 < c
      then Inl (S ''string argument should contain only ASCII characters'')
      else a2b_base64 0 0 0 [] t)"

section \<open>Concrete collaborators\<close>

text \<open>
  Collaborators to run the handlers on: the lower-casing of ASCII letters, the standard
  decoder, bytes read as ASCII, an embeddings endpoint that answers with the given
  status and one vector per text, a chat endpoint that answers with the given status,
  and a store that answers every query with the given hits, accepts every batch, and
  accepts for a new partition the names of three characters or more that start and end
  with a letter or a digit and hold only letters, digits, \<open>.\<close>, \<open>_\<close> and \<open>-\<close>: it
  refuses \<open>docs_\<close>, the name of the tenant with the empty id.
\<close>

definition ascii_lower :: "pystr \<Rightarrow> pystr" where
  "ascii_lower = map (\<lambda>c. if 65 \<le> c \<and> c \<le> 90 then c + 32 else c)"

definition alnum :: "nat \<Rightarrow> bool" where
  "alnum c \<longleftrightarrow> (48 \<le> c \<and> c \<le> 57) \<or> (65 \<le> c \<and> c \<le> 90) \<or> (97 \<le> c \<and> c \<le> 122)"

definition ex_creates :: "pystr \<Rightarrow> bool" where
  "ex_creates name \<longleftrightarrow>
     3 \<le> length name \<and> alnum (hd name) \<and> alnum (last name) \<and>
     (\<forall>c \<in> set name. alnum c \<or> c = 46 \<or> c = 95 \<or> c = 45)"

definition ex_env :: "pystr option \<Rightarrow> int \<Rightarrow> int \<Rightarrow> (pystr \<times> meta) list list option \<Rightarrow> env" where
  "ex_env key embed_status chat_status hits =
     \<lparr>ACTION_KEY = key,
      EMBED_MODEL = S ''text-embedding-3-small'',
      CHAT_MODEL = S ''gpt-4o-mini'',
      str_lower = ascii_lower,
      b64decode = py_b64decode,
      decode_utf8_ignore = map unat,
      post_embeddings = (\<lambda>model texts.
        \<lparr>status_code = embed_status, resp_text = S ''embed'',
         parsed = Some (map (\<lambda>t. [real (length t)]) texts)\<rparr>),
      post_chat = (\<lambda>model messages temperature.
        \<lparr>status_code = chat_status, resp_text = S ''chat'', parsed = Some (S ''An answer.'')\<rparr>),
      chroma_query = (\<lambda>col qtext n. hits),
      chroma_accepts = (\<lambda>col ids embs. True),
      chroma_creates = ex_creates\<rparr>"

definition ex_state :: state where
  "ex_state = \<lparr>store = Map.empty, calls = []\<rparr>"

definition ex_item :: "pystr \<Rightarrow> IngestItem" where
  "ex_item b64 = \<lparr>IngestItem.client = S ''Acme'', filename = S ''f.txt'', content_b64 = b64\<rparr>"

definition ex_req :: AskRequest where
  "ex_req = \<lparr>AskRequest.client = S ''Acme'', q = S ''Why?'', top_k = 6\<rparr>"

definition ex_hits :: "(pystr \<times> meta) list" where
  "ex_hits = [(S ''A clause.'', [S ''filename'' \<mapsto> S ''lease.txt'']), (replicate 250 66, Map.empty)]"

section \<open>Properties of the chunker\<close>

lemma has_nn_Cons2: "has_nn (a # b # r) \<longleftrightarrow> (a = 10 \<and> b = 10) \<or> has_nn (b # r)"
  by (auto simp: has_nn_def sublist_Cons_right)

lemma has_nn_Nil [simp]: "\<not> has_nn []"
  by (simp add: has_nn_def)

lemma has_nn_single [simp]: "\<not> has_nn [a]"
  by (simp add: has_nn_def sublist_Cons_right)

lemma split_nn_no_boundary: "\<not> has_nn p \<Longrightarrow> split_nn cur p = [cur @ p]"
proof (induction cur p rule: split_nn.induct)
  case (1 cur a b rest)
  then show ?case by (simp add: has_nn_Cons2)
qed simp_all

lemma split_nn_piece:
  "\<not> has_nn p \<Longrightarrow> p = [] \<or> last p \<noteq> 10 \<Longrightarrow>
   split_nn cur (p @ 10 # 10 # rest) = (cur @ p) # split_nn [] rest"
proof (induction p arbitrary: cur)
  case Nil
  then show ?case by simp
next
  case (Cons a p)
  show ?case
  proof (cases p)
    case Nil
    with Cons.prems have "a \<noteq> 10" by simp
    then show ?thesis using Nil by simp
  next
    case (Cons b q)
    with Cons.prems have nb: "\<not> (a = 10 \<and> b = 10)" and np: "\<not> has_nn p" and lp: "p = [] \<or> last p \<noteq> 10"
      by (auto simp: has_nn_Cons2)
    have "split_nn cur ((a # p) @ 10 # 10 # rest) = split_nn (cur @ [a]) (p @ 10 # 10 # rest)"
      using nb Cons by auto
    also have "\<dots> = ((cur @ [a]) @ p) # split_nn [] rest"
      using Cons.IH [OF np lp] .
    finally show ?thesis by simp
  qed
qed

lemma split_nn_join:
  "ps \<noteq> [] \<Longrightarrow> \<forall>p \<in> set ps. \<not> has_nn p \<Longrightarrow> \<forall>p \<in> set (butlast ps). p = [] \<or> last p \<noteq> 10 \<Longrightarrow>
   split_nn cur (join_nn ps) = (cur @ hd ps) # tl ps"
proof (induction ps arbitrary: cur rule: join_nn.induct)
  case 1
  then show ?case by simp
next
  case (2 p)
  then show ?case by (simp add: split_nn_no_boundary)
next
  case (3 p q ps)
  have "split_nn cur (join_nn (p # q # ps)) = (cur @ p) # split_nn [] (join_nn (q # ps))"
    using 3(3,4) by (simp add: split_nn_piece)
  also have "split_nn [] (join_nn (q # ps)) = q # ps"
    using 3(1) [of "[]"] 3(3,4) by simp
  finally show ?case by simp
qed

lemma is_par_split_unique: "is_par_split ps text \<Longrightarrow> str_split_nn text = ps"
  unfolding is_par_split_def str_split_nn_def
  using split_nn_join [of ps "[]"] by (cases ps) auto

lemma split_nn_ne [simp]: "split_nn cur s \<noteq> []"
  by (induction cur s rule: split_nn.induct) auto

lemma join_split_nn: "join_nn (split_nn cur s) = cur @ s"
proof (induction cur s rule: split_nn.induct)
  case (1 cur a b rest)
  show ?case
  proof (cases "a = 10 \<and> b = 10")
    case True
    obtain q qs where q: "split_nn [] rest = q # qs" by (cases "split_nn [] rest") auto
    from True 1(1) q show ?thesis by simp
  next
    case False
    then show ?thesis using 1(2) by auto
  qed
qed simp_all


lemma str_strip_ends: "str_strip p = [] \<or> (\<not> isspace (hd (str_strip p)) \<and> \<not> isspace (last (str_strip p)))"
proof (cases "str_strip p = []")
  case True
  then show ?thesis by simp
next
  case False
  define u where "u = dropWhile isspace p"
  define v where "v = dropWhile isspace (rev u)"
  have t: "str_strip p = rev v" by (simp add: str_strip_def u_def v_def)
  with False have v: "v \<noteq> []" by simp
  then have u: "u \<noteq> []" by (auto simp: v_def)
  have "\<not> isspace (hd v)" using v unfolding v_def by (rule hd_dropWhile)
  then have l: "\<not> isspace (last (str_strip p))" using v by (simp add: t last_rev)
  have "suffix v (rev u)" unfolding v_def by (rule suffix_dropWhile)
  then obtain w where "rev u = w @ v" by (auto simp: suffix_def)
  then have "last v = last (rev u)" using v by simp
  also have "\<dots> = hd u" using u by (simp add: last_rev)
  finally have "hd (str_strip p) = hd u" using v by (simp add: t hd_rev)
  moreover have "\<not> isspace (hd u)" using u unfolding u_def by (rule hd_dropWhile)
  ultimately show ?thesis using l by simp
qed

lemma str_strip_fixed:
  assumes "t = [] \<or> (\<not> isspace (hd t) \<and> \<not> isspace (last t))"
  shows "str_strip t = t"
proof (cases t)
  case Nil
  then show ?thesis by (simp add: str_strip_def)
next
  case (Cons a q)
  with assms have h: "\<not> isspace (hd t)" and l: "\<not> isspace (last t)" by auto
  from Cons h have 1: "dropWhile isspace t = t" by simp
  from Cons l have "dropWhile isspace (rev t) = rev t"
    by (simp only: dropWhile_eq_self_iff hd_rev) simp
  with 1 show ?thesis by (simp add: str_strip_def)
qed

lemma str_strip_surround:
  assumes l: "\<forall>c \<in> set l. isspace c" and r: "\<forall>c \<in> set r. isspace c"
  shows "str_strip (l @ t @ r) = str_strip t"
proof -
  have 1: "dropWhile isspace (l @ t @ r) = dropWhile isspace (t @ r)"
    using l by (simp add: dropWhile_append)
  show ?thesis
  proof (cases "\<forall>c \<in> set t. isspace c")
    case True
    with r have "\<forall>c \<in> set (t @ r). isspace c" by auto
    then have a: "dropWhile isspace (t @ r) = []" by (simp only: dropWhile_eq_Nil_conv)
    from True have b: "dropWhile isspace t = []" by (simp only: dropWhile_eq_Nil_conv)
    show ?thesis by (simp only: str_strip_def 1 a b)
  next
    case False
    then have 2: "dropWhile isspace (t @ r) = dropWhile isspace t @ r"
      by (auto simp: dropWhile_append)
    have "dropWhile isspace (rev r @ rev (dropWhile isspace t)) = dropWhile isspace (rev (dropWhile isspace t))"
      using r by (simp add: dropWhile_append)
    then show ?thesis unfolding str_strip_def 1 2 by simp
  qed
qed

lemma is_trim_iff: "is_trim t p \<longleftrightarrow> t = str_strip p"
proof
  assume "is_trim t p"
  then obtain l r where p: "p = l @ t @ r" and l: "\<forall>c \<in> set l. isspace c"
    and r: "\<forall>c \<in> set r. isspace c" and t: "t = [] \<or> (\<not> isspace (hd t) \<and> \<not> isspace (last t))"
    by (auto simp: is_trim_def)
  have "str_strip p = str_strip t" unfolding p using l r by (rule str_strip_surround)
  also have "\<dots> = t" using t by (rule str_strip_fixed)
  finally show "t = str_strip p" by simp
next
  assume t: "t = str_strip p"
  define u where "u = dropWhile isspace p"
  define l where "l = takeWhile isspace p"
  define r where "r = rev (takeWhile isspace (rev u))"
  have "p = l @ u" by (simp add: l_def u_def)
  moreover have "rev u = rev r @ rev t"
    by (simp add: r_def t str_strip_def u_def)
  then have "u = t @ r" by (metis rev_append rev_rev_ident)
  ultimately have "p = l @ t @ r" by simp
  moreover have "\<forall>c \<in> set l. isspace c" unfolding l_def by (auto dest: set_takeWhileD)
  moreover have "\<forall>c \<in> set r. isspace c" unfolding r_def by (auto dest: set_takeWhileD)
  ultimately have "\<exists>l r. p = l @ t @ r \<and> (\<forall>c \<in> set l. isspace c) \<and> (\<forall>c \<in> set r. isspace c)"
    by blast
  then show "is_trim t p"
    unfolding is_trim_def using str_strip_ends [of p] t by simp
qed

lemma str_strip_sublist: "sublist (str_strip p) p"
proof -
  have "sublist (dropWhile isspace (rev (dropWhile isspace p))) (rev (dropWhile isspace p))"
    by (rule suffix_imp_sublist [OF suffix_dropWhile])
  then have "sublist (str_strip p) (dropWhile isspace p)"
    unfolding str_strip_def by (simp add: sublist_rev_left)
  moreover have "sublist (dropWhile isspace p) p"
    by (rule suffix_imp_sublist [OF suffix_dropWhile])
  ultimately show ?thesis by (rule sublist_order.order.trans)
qed

lemma has_nn_str_strip: "has_nn (str_strip p) \<Longrightarrow> has_nn p"
  unfolding has_nn_def using str_strip_sublist [of p] by (metis sublist_order.order.trans)


lemma has_nn_rev: "has_nn (rev p) = has_nn p"
proof -
  have "sublist [10, 10] (rev p) = sublist (rev [10, 10::nat]) p"
    by (rule sublist_rev_right)
  then show ?thesis by (simp add: has_nn_def)
qed

lemma has_nn_snoc2: "has_nn (xs @ [a, b]) \<longleftrightarrow> has_nn (xs @ [a]) \<or> (a = 10 \<and> b = 10)"
proof -
  have "has_nn (xs @ [a, b]) = has_nn (rev (xs @ [a, b]))" by (simp only: has_nn_rev)
  also have "\<dots> = has_nn (b # a # rev xs)" by simp
  also have "\<dots> \<longleftrightarrow> (b = 10 \<and> a = 10) \<or> has_nn (a # rev xs)" by (rule has_nn_Cons2)
  also have "has_nn (a # rev xs) = has_nn (rev (xs @ [a]))" by simp
  also have "\<dots> = has_nn (xs @ [a])" by (simp only: has_nn_rev)
  finally show ?thesis by auto
qed

lemma has_nn_appendI: "has_nn xs \<Longrightarrow> has_nn (xs @ ys)"
  unfolding has_nn_def by (metis sublist_order.order.trans prefix_imp_sublist prefixI)

lemma no_nn_snoc_newline: "\<not> has_nn (cur @ [10]) \<Longrightarrow> cur = [] \<or> last cur \<noteq> 10"
proof (cases cur rule: rev_cases)
  case Nil
  then show ?thesis by simp
next
  case (snoc ys y)
  assume "\<not> has_nn (cur @ [10])"
  with snoc have "\<not> has_nn (ys @ [y, 10])" by simp
  then have "y \<noteq> 10" by (simp add: has_nn_snoc2)
  with snoc show ?thesis by simp
qed

lemma split_nn_pieces:
  "\<not> has_nn (cur @ take 1 s) \<Longrightarrow>
   (\<forall>p \<in> set (split_nn cur s). \<not> has_nn p) \<and>
   (\<forall>p \<in> set (butlast (split_nn cur s)). p = [] \<or> last p \<noteq> 10)"
proof (induction cur s rule: split_nn.induct)
  case (1 cur a b rest)
  from 1(3) have ca: "\<not> has_nn (cur @ [a])" by simp
  then have c: "\<not> has_nn cur" using has_nn_appendI by blast
  show ?case
  proof (cases "a = 10 \<and> b = 10")
    case True
    have e: "\<not> has_nn ([] @ take 1 rest)" by (cases rest) simp_all
    have l: "cur = [] \<or> last cur \<noteq> 10" using ca True no_nn_snoc_newline by blast
    from 1(1) [OF True e] True c l show ?thesis by simp
  next
    case False
    with ca have "\<not> has_nn ((cur @ [a]) @ take 1 (b # rest))" by (simp add: has_nn_snoc2)
    from 1(2) [OF False this] False show ?thesis by auto
  qed
qed simp_all

lemma str_split_nn_is_par_split: "is_par_split (str_split_nn text) text"
proof -
  have "\<not> has_nn ([] @ take 1 text)" by (cases "text") simp_all
  then show ?thesis
    unfolding is_par_split_def str_split_nn_def
    using split_nn_pieces [of "[]" "text"] join_split_nn [of "[]" "text"] by simp
qed

lemma is_par_split_iff: "is_par_split ps text \<longleftrightarrow> ps = str_split_nn text"
  using is_par_split_unique str_split_nn_is_par_split by blast

lemma list_all2_is_trim: "list_all2 is_trim ts ps \<longleftrightarrow> ts = map str_strip ps"
proof -
  have "list_all2 is_trim ts ps \<longleftrightarrow> list_all2 (\<lambda>t p. t = str_strip p) ts ps"
    by (simp add: is_trim_iff [abs_def])
  also have "\<dots> \<longleftrightarrow> ts = map str_strip ps"
    by (simp only: list_all2_eq [of ts] list_all2_map2)
  finally show ?thesis .
qed

lemma chunker_filter_map: "chunker text = filter (\<lambda>t. t \<noteq> []) (map str_strip (str_split_nn text))"
  by (simp add: chunker_def filter_map comp_def)

text \<open>
  Claim C4. For every input text, the chunker gives exactly the sequence obtained by
  splitting the text on two consecutive newlines, trimming the surrounding whitespace
  of each piece and discarding the pieces that become empty, the surviving chunks in the
  order of the text: a splitting \<open>ps\<close> and its trimmed pieces \<open>ts\<close> exist, and for
  every such \<open>ps\<close> and \<open>ts\<close> the chunker's result is \<open>ts\<close> without its empty
  members, a subsequence of \<open>ts\<close>.
\<close>

theorem chunker_spec:
  "(\<exists>ps ts. is_par_split ps text \<and> list_all2 is_trim ts ps \<and>
      chunker text = filter (\<lambda>t. t \<noteq> []) ts) \<and>
   (\<forall>ps ts. is_par_split ps text \<and> list_all2 is_trim ts ps \<longrightarrow>
      chunker text = filter (\<lambda>t. t \<noteq> []) ts \<and> subseq (chunker text) ts)"
proof -
  have "is_par_split (str_split_nn text) text" by (rule str_split_nn_is_par_split)
  moreover have "list_all2 is_trim (map str_strip (str_split_nn text)) (str_split_nn text)"
    by (simp add: list_all2_is_trim)
  ultimately have ex: "\<exists>ps ts. is_par_split ps text \<and> list_all2 is_trim ts ps \<and>
      chunker text = filter (\<lambda>t. t \<noteq> []) ts"
    using chunker_filter_map by blast
  have "chunker text = filter (\<lambda>t. t \<noteq> []) ts \<and> subseq (chunker text) ts"
    if "is_par_split ps text \<and> list_all2 is_trim ts ps" for ps ts
  proof -
    from that have "ts = map str_strip (str_split_nn text)"
      by (simp add: is_par_split_iff list_all2_is_trim)
    then show ?thesis by (simp add: chunker_filter_map)
  qed
  with ex show ?thesis by blast
qed

theorem chunker_spec_witness:
  "is_par_split [[97], [32, 98, 32], [], [99]] [97, 10, 10, 32, 98, 32, 10, 10, 10, 10, 99] \<and>
   list_all2 is_trim [[97], [98], [], [99]] [[97], [32, 98, 32], [], [99]] \<and>
   chunker [97, 10, 10, 32, 98, 32, 10, 10, 10, 10, 99] = [[97], [98], [99]]"
proof -
  have a: "is_par_split [[97], [32, 98, 32], [], [99]] [97, 10, 10, 32, 98, 32, 10, 10, 10, 10, 99]"
    by (simp add: is_par_split_def has_nn_def sublist_Cons_right)
  have b: "list_all2 is_trim [[97], [98], [], [99]] [[97], [32, 98, 32], [], [99]]"
    by (simp add: is_trim_iff str_strip_def isspace_def)
  from a b chunker_spec [of "[97, 10, 10, 32, 98, 32, 10, 10, 10, 10, 99]"]
  have "chunker [97, 10, 10, 32, 98, 32, 10, 10, 10, 10, 99] =
        filter (\<lambda>t. t \<noteq> []) [[97], [98], [], [99]]"
    by blast
  with a b show ?thesis by simp
qed

lemma chunker_clean:
  assumes "c \<in> set (chunker text)"
  shows "c \<noteq> [] \<and> \<not> has_nn c \<and> \<not> isspace (hd c) \<and> \<not> isspace (last c)"
proof -
  from assms obtain p where p: "p \<in> set (str_split_nn text)" and c: "c = str_strip p" and ne: "c \<noteq> []"
    by (auto simp: chunker_def)
  from p have "\<not> has_nn p" using str_split_nn_is_par_split [of "text"] by (simp add: is_par_split_def)
  then have "\<not> has_nn c" using has_nn_str_strip c by blast
  then show ?thesis using ne str_strip_ends [of p] c by simp
qed

lemma chunker_join_clean:
  assumes "\<forall>c \<in> set cs. c \<noteq> [] \<and> \<not> has_nn c \<and> \<not> isspace (hd c) \<and> \<not> isspace (last c)"
  shows "chunker (join_nn cs) = cs"
proof (cases "cs = []")
  case True
  then show ?thesis by (simp add: chunker_def str_split_nn_def str_strip_def)
next
  case False
  have nl: "isspace 10" by (simp add: isspace_def)
  have "\<forall>p \<in> set (butlast cs). p = [] \<or> last p \<noteq> 10"
    using assms nl by (metis in_set_butlastD)
  with False assms have "is_par_split cs (join_nn cs)" by (simp add: is_par_split_def)
  then have sp: "str_split_nn (join_nn cs) = cs" by (rule is_par_split_unique)
  have fx: "\<forall>c \<in> set cs. str_strip c = c" using assms str_strip_fixed by blast
  then have "filter (\<lambda>c. str_strip c \<noteq> []) cs = cs" using assms by (simp add: filter_id_conv)
  moreover have "map str_strip cs = cs" using fx by (simp add: map_idI)
  ultimately show ?thesis by (simp add: chunker_def sp)
qed

text \<open>
  Claim C8. Chunking is idempotent on its own output: for every text, the chunks of the
  text joined by a blank line are chunked into the same sequence of chunks.
\<close>

theorem chunker_idempotent: "chunker (join_nn (chunker text)) = chunker text"
  by (rule chunker_join_clean) (use chunker_clean in blast)

section \<open>The API-key check\<close>

lemma check_action_key_iff:
  "check_action_key e key = Inl err \<longleftrightarrow>
     err = HTTPException 401 (S ''Invalid action key'') \<and>
     (\<exists>k. ACTION_KEY e = Some k \<and> k \<noteq> [] \<and> key \<noteq> Some k)"
  by (auto simp: check_action_key_def split: option.splits)

lemma check_action_key_pass:
  "check_action_key e key = Inr u \<longleftrightarrow>
     ACTION_KEY e = None \<or> ACTION_KEY e = Some [] \<or> key = ACTION_KEY e"
  by (auto simp: check_action_key_def split: option.splits)

lemma ensure_collection_None:
  "ensure_collection e s c = None \<longleftrightarrow>
     store s (collection_name e c) = None \<and> \<not> chroma_creates e (collection_name e c)"
  by (simp add: ensure_collection_def Let_def split: option.splits)

lemma ensure_collection_fst:
  "ensure_collection e s c = Some (col, s1) \<Longrightarrow> col = collection_name e c"
  by (auto simp: ensure_collection_def Let_def split: option.splits if_splits)

lemma ensure_collection_store:
  "ensure_collection e s c = Some (col, s1) \<Longrightarrow>
   store s1 =
     (case store s (collection_name e c) of
        None \<Rightarrow> (store s)(collection_name e c \<mapsto> Map.empty)
      | Some x \<Rightarrow> store s)"
  by (auto simp: ensure_collection_def Let_def split: option.splits if_splits)

lemma ensure_collection_calls:
  "ensure_collection e s c = Some (col, s1) \<Longrightarrow> calls s1 = calls s"
  by (auto simp: ensure_collection_def Let_def split: option.splits if_splits)

lemma ensure_collection_dom:
  "ensure_collection e s c = Some (col, s1) \<Longrightarrow>
   dom (store s1) = insert (collection_name e c) (dom (store s))"
  by (auto simp: ensure_collection_def Let_def split: option.splits if_splits)

lemma ensure_collection_the_col:
  "ensure_collection e s c = Some (col, s1) \<Longrightarrow> the_col s1 name = the_col s name"
  by (auto simp: the_col_def ensure_collection_def Let_def split: option.splits if_splits)

lemma embed_texts_store: "store (snd (embed_texts e s texts)) = store s"
  by (simp add: embed_texts_def Let_def split: option.splits)

lemma embed_texts_not_401: "embed_texts e s texts = (Inl (HTTPException 401 d), s1) \<Longrightarrow> False"
  by (simp add: embed_texts_def Let_def split: option.splits if_splits)

lemma chat_answer_store: "store (snd (chat_answer e s qu ctx)) = store s"
  by (simp add: chat_answer_def Let_def split: option.splits)

lemma chat_answer_calls:
  "calls (snd (chat_answer e s qu ctx)) =
     calls s @ [ChatCall (CHAT_MODEL e) (chat_messages qu ctx) (2 / 10)]"
  by (simp add: chat_answer_def Let_def split: option.splits)

lemma chat_answer_not_401: "chat_answer e s qu ctx = (Inl (HTTPException 401 d), s1) \<Longrightarrow> False"
  by (simp add: chat_answer_def Let_def split: option.splits if_splits)

lemma ingest_json_rejected:
  "check_action_key e key = Inl err \<Longrightarrow> ingest_json e s item key = (Inl err, s)"
  by (simp add: ingest_json_def)

lemma ask_rejected:
  "check_action_key e key = Inl err \<Longrightarrow> ask e s req key = (Inl err, s)"
  by (simp add: ask_def)

lemma ingest_json_key_irrelevant:
  "check_action_key e key = Inr () \<Longrightarrow> check_action_key e key' = Inr () \<Longrightarrow>
   ingest_json e s item key = ingest_json e s item key'"
  by (simp add: ingest_json_def)

lemma ask_key_irrelevant:
  "check_action_key e key = Inr () \<Longrightarrow> check_action_key e key' = Inr () \<Longrightarrow>
   ask e s req key = ask e s req key'"
  by (simp add: ask_def)

lemma ingest_json_401:
  "fst (ingest_json e s item key) = Inl (HTTPException 401 d) \<Longrightarrow>
   check_action_key e key \<noteq> Inr ()"
  by (auto simp: ingest_json_def Let_def dest: embed_texts_not_401
      split: sum.splits prod.splits if_splits option.splits)

lemma ask_401:
  "fst (ask e s req key) = Inl (HTTPException 401 d) \<Longrightarrow> check_action_key e key \<noteq> Inr ()"
  by (auto simp: ask_def Let_def dest: chat_answer_not_401
      split: sum.splits prod.splits if_splits option.splits list.splits)

text \<open>
  Claim C10. The API-key check raises if and only if \<open>ACTION_KEY\<close> is set (to a
  non-empty value: the check tests its truthiness) and the supplied key differs from it,
  and what it raises is the 401. When no secret is configured, the check never raises:
  \<open>ingest_json\<close> and \<open>ask\<close> do what they do without a header whatever the header
  is, absent or present with any value, and never answer 401.
\<close>

theorem action_key_unset:
  "(check_action_key e key \<noteq> Inr () \<longleftrightarrow>
      (\<exists>k. ACTION_KEY e = Some k \<and> k \<noteq> [] \<and> key \<noteq> Some k)) \<and>
   (check_action_key e key \<noteq> Inr () \<longrightarrow>
      check_action_key e key = Inl (HTTPException 401 (S ''Invalid action key''))) \<and>
   (ACTION_KEY e = None \<or> ACTION_KEY e = Some [] \<longrightarrow>
      check_action_key e key = Inr () \<and>
      ingest_json e s item key = ingest_json e s item None \<and>
      ask e s req key = ask e s req None \<and>
      fst (ingest_json e s item key) \<noteq> Inl (HTTPException 401 d) \<and>
      fst (ask e s req key) \<noteq> Inl (HTTPException 401 d))"
proof -
  have 1: "check_action_key e key \<noteq> Inr () \<longleftrightarrow>
      (\<exists>k. ACTION_KEY e = Some k \<and> k \<noteq> [] \<and> key \<noteq> Some k)"
    by (auto simp: check_action_key_def split: option.splits)
  have 2: "check_action_key e key \<noteq> Inr () \<longrightarrow>
      check_action_key e key = Inl (HTTPException 401 (S ''Invalid action key''))"
    by (simp add: check_action_key_def)
  have 3: "check_action_key e key = Inr () \<and>
      ingest_json e s item key = ingest_json e s item None \<and>
      ask e s req key = ask e s req None \<and>
      fst (ingest_json e s item key) \<noteq> Inl (HTTPException 401 d) \<and>
      fst (ask e s req key) \<noteq> Inl (HTTPException 401 d)"
    if u: "ACTION_KEY e = None \<or> ACTION_KEY e = Some []"
  proof -
    from u have p: "check_action_key e k' = Inr ()" for k'
      by (auto simp: check_action_key_def)
    show ?thesis
      using p ingest_json_key_irrelevant [OF p p] ask_key_irrelevant [OF p p]
        ingest_json_401 [of e s item key d] ask_401 [of e s req key d]
      by blast
  qed
  from 1 2 3 show ?thesis by blast
qed

theorem action_key_unset_witness:
  "ACTION_KEY (ex_env None 200 200 None) = None \<and>
   check_action_key (ex_env None 200 200 None) (Some (S ''guess'')) = Inr () \<and>
   fst (ingest_json (ex_env None 200 200 None) ex_state (ex_item (S ''QQoKQg=='')) (Some (S ''guess'')))
     \<noteq> Inl (HTTPException 401 (S ''Invalid action key'')) \<and>
   check_action_key (ex_env (Some (S ''k'')) 200 200 None) None =
     Inl (HTTPException 401 (S ''Invalid action key''))"
proof -
  have a: "ACTION_KEY (ex_env None 200 200 None) = None" by (simp add: ex_env_def)
  have b: "check_action_key (ex_env (Some (S ''k'')) 200 200 None) None \<noteq> Inr ()"
    by (simp add: check_action_key_def ex_env_def S_def)
  show ?thesis
    using a b
      action_key_unset [of "ex_env None 200 200 None" "Some (S ''guess'')" ex_state
        "ex_item (S ''QQoKQg=='')" ex_req "S ''Invalid action key''"]
      action_key_unset [of "ex_env (Some (S ''k'')) 200 200 None" None ex_state
        "ex_item (S ''QQoKQg=='')" ex_req "S ''Invalid action key''"]
    by blast
qed

text \<open>
  Claim C7. When the shared secret is configured, \<open>ingest_json\<close> and \<open>ask\<close> answer
  a request whose \<open>x-api-key\<close> is missing or differs from the secret with 401 and leave
  the state as it was (no store change, no remote call made); a request carrying exactly
  the secret passes the check, and is not answered with 401.
\<close>

theorem action_key_configured:
  assumes "ACTION_KEY e = Some k" and "k \<noteq> []"
  shows "(key \<noteq> Some k \<longrightarrow>
            ingest_json e s item key = (Inl (HTTPException 401 (S ''Invalid action key'')), s) \<and>
            ask e s req key = (Inl (HTTPException 401 (S ''Invalid action key'')), s)) \<and>
         check_action_key e (Some k) = Inr () \<and>
         fst (ingest_json e s item (Some k)) \<noteq> Inl (HTTPException 401 d) \<and>
         fst (ask e s req (Some k)) \<noteq> Inl (HTTPException 401 d)"
proof -
  have r: "check_action_key e key = Inl (HTTPException 401 (S ''Invalid action key''))"
    if "key \<noteq> Some k"
    using assms that by (simp add: check_action_key_def)
  have p: "check_action_key e (Some k) = Inr ()"
    using assms by (simp add: check_action_key_def)
  show ?thesis
    using r ingest_json_rejected [of e key _ s item] ask_rejected [of e key _ s req] p
      ingest_json_401 [of e s item "Some k" d] ask_401 [of e s req "Some k" d]
    by blast
qed

theorem action_key_configured_witness:
  "ACTION_KEY (ex_env (Some (S ''k'')) 200 200 None) = Some (S ''k'') \<and> S ''k'' \<noteq> [] \<and>
   None \<noteq> Some (S ''k'') \<and>
   ingest_json (ex_env (Some (S ''k'')) 200 200 None) ex_state (ex_item (S ''QQoKQg=='')) None =
     (Inl (HTTPException 401 (S ''Invalid action key'')), ex_state) \<and>
   ask (ex_env (Some (S ''k'')) 200 200 None) ex_state ex_req None =
     (Inl (HTTPException 401 (S ''Invalid action key'')), ex_state) \<and>
   check_action_key (ex_env (Some (S ''k'')) 200 200 None) (Some (S ''k'')) = Inr ()"
proof -
  have a: "ACTION_KEY (ex_env (Some (S ''k'')) 200 200 None) = Some (S ''k'')"
    by (simp add: ex_env_def)
  have b: "S ''k'' \<noteq> []" by (simp add: S_def)
  show ?thesis
    using a b action_key_configured [OF a b, of None ex_state "ex_item (S ''QQoKQg=='')" ex_req
        "S ''Invalid action key''"]
    by simp
qed

section \<open>Ask\<close>

lemma ask_loop_eq:
  "ask_loop i hs (ctx, srcs) =
     (ctx @ concat (map (\<lambda>(i, d, m). S ''['' @ str_nat i @ S ''] '' @ fname_of m @ [10] @ d @ [10, 10])
                        (zip [i..<i + length hs] hs)),
      srcs @ map (\<lambda>(i, d, m). JDict [(S ''id'', JInt (int i)), (S ''filename'', JStr (fname_of m)),
                                     (S ''snippet'', JStr (take 240 d))])
                 (zip [i..<i + length hs] hs))"
proof (induction hs arbitrary: i ctx srcs)
  case Nil
  then show ?case by simp
next
  case (Cons h hs)
  obtain d m where h: "h = (d, m)" by (cases h)
  have "i < i + length (h # hs)" by simp
  then have "[i..<i + length (h # hs)] = i # [Suc i..<i + length (h # hs)]"
    by (rule upt_conv_Cons)
  then have u: "[i..<i + length (h # hs)] = i # [Suc i..<Suc i + length hs]"
    by simp
  have z: "zip [i..<i + length (h # hs)] (h # hs) = (i, d, m) # zip [Suc i..<Suc i + length hs] hs"
    by (simp only: u [unfolded h] h zip_Cons_Cons)
  show ?case
    by (simp only: z) (simp add: h Cons.IH del: upt_Suc)
qed

lemma ask_loop_spec: "ask_loop 1 hs ([], []) = (spec_context hs, id_sources hs)"
  by (simp add: ask_loop_eq spec_context_def id_sources_def)

lemma col_query_Some:
  "chroma_query e (the_col s name) qt n = Some hss \<Longrightarrow>
   col_query e s name qt n = Some \<lparr>documents = map (map fst) hss, metadatas = map (map snd) hss\<rparr>"
  by (simp add: col_query_def)

text \<open>
  Claim C3. When the similarity query of an \<open>ask\<close> request returns no hit, the
  handler returns normally with the fixed answer "Not found in the provided documents."
  and an empty list of sources, and no remote call is made: the generation capability is
  not called.
\<close>

theorem ask_no_hits:
  assumes "check_action_key e key = Inr ()"
    and "ensure_collection e s (AskRequest.client req) = Some (col, s1)"
    and "chroma_query e (the_col s1 col) (q req) (top_k req) = Some hss"
    and "hss = [] \<or> hd hss = []"
  shows "ask e s req key =
           (Inr (JDict [(S ''answer'', JStr (S ''Not found in the provided documents.'')),
                        (S ''sources'', JList [])]), s1) \<and>
         calls s1 = calls s"
proof -
  from assms(4) have z: "map (map fst) hss = [] \<or> hd (map (map fst) hss) = []"
    by (cases hss) auto
  have c: "calls s1 = calls s"
    using assms(2) by (rule ensure_collection_calls)
  show ?thesis
    using assms(1,2) z c by (auto simp: ask_def col_query_Some [OF assms(3)])
qed

theorem ask_no_hits_witness:
  "check_action_key (ex_env None 200 200 (Some [[]])) None = Inr () \<and>
   ask (ex_env None 200 200 (Some [[]])) ex_state ex_req None =
     (Inr (JDict [(S ''answer'', JStr (S ''Not found in the provided documents.'')),
                  (S ''sources'', JList [])]),
      \<lparr>store = [S ''docs_acme'' \<mapsto> Map.empty], calls = []\<rparr>)"
proof -
  have a: "check_action_key (ex_env None 200 200 (Some [[]])) None = Inr ()"
    by (simp add: check_action_key_def ex_env_def)
  have b: "ensure_collection (ex_env None 200 200 (Some [[]])) ex_state (AskRequest.client ex_req) =
             Some (S ''docs_acme'', \<lparr>store = [S ''docs_acme'' \<mapsto> Map.empty], calls = []\<rparr>)"
    by (simp add: ensure_collection_def collection_name_def ex_env_def ex_state_def ex_req_def
        ascii_lower_def ex_creates_def alnum_def S_def Let_def)
  have c: "chroma_query (ex_env None 200 200 (Some [[]]))
             (the_col \<lparr>store = [S ''docs_acme'' \<mapsto> Map.empty], calls = []\<rparr> (S ''docs_acme''))
             (q ex_req) (top_k ex_req) = Some [[]]"
    by (simp add: ex_env_def)
  have d: "[[]] = [] \<or> hd [[]] = ([] :: (pystr \<times> meta) list)" by simp
  show ?thesis using a ask_no_hits [OF a b c d] by simp
qed

lemma ask_loop_zip:
  "ask_loop (Suc 0) (zip (map fst hs) (map snd hs)) ([], []) = (spec_context hs, id_sources hs)"
  using ask_loop_spec [of hs] by (simp add: zip_map_fst_snd)

lemma ask_hits:
  assumes "check_action_key e key = Inr ()"
    and "ensure_collection e s (AskRequest.client req) = Some (col, s1)"
    and "chroma_query e (the_col s1 col) (q req) (top_k req) = Some (hs # others)"
    and "hs \<noteq> []"
  shows "ask e s req key =
           (case chat_answer e s1 (q req) (spec_context hs) of
              (Inl err, s2) \<Rightarrow> (Inl err, s2)
            | (Inr answer, s2) \<Rightarrow>
                (Inr (JDict [(S ''answer'', JStr answer), (S ''sources'', JList (id_sources hs))]), s2))"
  using assms(1,2,4)
  by (simp add: ask_def col_query_Some [OF assms(3)] ask_loop_zip)

text \<open>
  Claim C5. When the query of an \<open>ask\<close> request returns \<open>n \<ge> 1\<close> hits, the context
  is the concatenation, in the order of the store, of
  \<open>"[<rank>] <filename>\n<document>\n\n"\<close> for the ranks 1 to \<open>n\<close> (the file name read
  with \<open>m.get("filename", "unknown")\<close>), and the request makes exactly one remote call,
  the chat completion whose messages are the fixed system instruction and the user
  message \<open>"Question: <question>\n\nContext:\n<context>"\<close> of the question and this
  context.
\<close>

theorem ask_context:
  assumes "check_action_key e key = Inr ()"
    and "ensure_collection e s (AskRequest.client req) = Some (col, s1)"
    and "chroma_query e (the_col s1 col) (q req) (top_k req) = Some (hs # others)"
    and "hs \<noteq> []"
  shows "snd (ask e s req key) = snd (chat_answer e s1 (q req) (spec_context hs)) \<and>
         calls (snd (ask e s req key)) =
           calls s @
           [ChatCall (CHAT_MODEL e)
              [\<lparr>role = S ''system'',
                 content = S ''You are a legal document assistant. Cite when possible.''\<rparr>,
               \<lparr>role = S ''user'',
                 content = S ''Question: '' @ q req @ [10, 10] @ S ''Context:'' @ [10] @
                           spec_context hs\<rparr>]
              (2 / 10)]"
proof -
  have c: "calls s1 = calls s"
    using assms(2) by (rule ensure_collection_calls)
  have 1: "snd (ask e s req key) = snd (chat_answer e s1 (q req) (spec_context hs))"
    unfolding ask_hits [OF assms] by (simp split: prod.splits sum.splits)
  show ?thesis unfolding 1 by (simp add: chat_answer_calls chat_messages_def c)
qed

lemma id_sources_nth:
  "i < length hs \<Longrightarrow>
   id_sources hs ! i =
     JDict [(S ''id'', JInt (int (Suc i))), (S ''filename'', JStr (fname_of (snd (hs ! i)))),
            (S ''snippet'', JStr (take 240 (fst (hs ! i))))]"
  by (simp add: id_sources_def split: prod.splits del: upt_Suc)

lemma length_id_sources: "length (id_sources hs) = length hs"
  by (simp add: id_sources_def del: upt_Suc)

text \<open>
  Claim C6, amended. When the query of an \<open>ask\<close> request returns \<open>n \<ge> 1\<close> hits and
  the handler returns a response, its sources are \<open>n\<close> entries in the order of the
  store, entry \<open>i\<close> (from 1) being \<open>{id: i, filename, snippet}\<close> with the first 240
  characters of the document as snippet: the rank is under the key \<open>id\<close>.
\<close>

theorem ask_sources:
  assumes "check_action_key e key = Inr ()"
    and "ensure_collection e s (AskRequest.client req) = Some (col, s1)"
    and "chroma_query e (the_col s1 col) (q req) (top_k req) = Some (hs # others)"
    and "hs \<noteq> []"
    and "ask e s req key = (Inr resp, s')"
  shows "\<exists>srcs. dict_get resp (S ''sources'') = Some (JList srcs) \<and> length srcs = length hs \<and>
           (\<forall>i<length hs. srcs ! i =
              JDict [(S ''id'', JInt (int (Suc i))),
                     (S ''filename'', JStr (fname_of (snd (hs ! i)))),
                     (S ''snippet'', JStr (take 240 (fst (hs ! i))))])"
proof -
  from assms(5) have "resp = JDict [(S ''answer'', JStr (projr (fst (chat_answer e s1 (q req) (spec_context hs))))),
      (S ''sources'', JList (id_sources hs))]"
    unfolding ask_hits [OF assms(1-4)] by (auto split: prod.splits sum.splits)
  then have "dict_get resp (S ''sources'') = Some (JList (id_sources hs))"
    by (simp add: dict_get_def S_def)
  then show ?thesis using length_id_sources id_sources_nth by blast
qed

lemma ex_check: "check_action_key (ex_env None es cs h) key = Inr ()"
  by (simp add: check_action_key_def ex_env_def)

lemma ex_ensure:
  "ensure_collection (ex_env k es cs h) ex_state (S ''Acme'') =
     Some (S ''docs_acme'', \<lparr>store = [S ''docs_acme'' \<mapsto> Map.empty], calls = []\<rparr>)"
  by (simp add: ensure_collection_def collection_name_def ex_env_def ex_state_def
      ascii_lower_def ex_creates_def alnum_def S_def Let_def)

lemma ex_context:
  "spec_context ex_hits =
     S ''[1] lease.txt'' @ [10] @ S ''A clause.'' @ [10, 10] @
     S ''[2] unknown'' @ [10] @ replicate 250 66 @ [10, 10]"
  by (simp add: spec_context_def ex_hits_def fname_of_def str_nat.simps S_def
      upt_rec)

theorem ask_context_witness:
  "check_action_key (ex_env None 200 200 (Some [ex_hits])) None = Inr () \<and> ex_hits \<noteq> [] \<and>
   calls (snd (ask (ex_env None 200 200 (Some [ex_hits])) ex_state ex_req None)) =
     [ChatCall (S ''gpt-4o-mini'')
        [\<lparr>role = S ''system'',
           content = S ''You are a legal document assistant. Cite when possible.''\<rparr>,
         \<lparr>role = S ''user'',
           content = S ''Question: '' @ S ''Why?'' @ [10, 10] @ S ''Context:'' @ [10] @
                     S ''[1] lease.txt'' @ [10] @ S ''A clause.'' @ [10, 10] @
                     S ''[2] unknown'' @ [10] @ replicate 250 66 @ [10, 10]\<rparr>]
        (2 / 10)]"
proof -
  have a: "check_action_key (ex_env None 200 200 (Some [ex_hits])) None = Inr ()"
    by (rule ex_check)
  have b: "ensure_collection (ex_env None 200 200 (Some [ex_hits])) ex_state (AskRequest.client ex_req) =
             Some (S ''docs_acme'', \<lparr>store = [S ''docs_acme'' \<mapsto> Map.empty], calls = []\<rparr>)"
    using ex_ensure by (simp add: ex_req_def)
  have c: "chroma_query (ex_env None 200 200 (Some [ex_hits]))
             (the_col \<lparr>store = [S ''docs_acme'' \<mapsto> Map.empty], calls = []\<rparr> (S ''docs_acme''))
             (q ex_req) (top_k ex_req) = Some (ex_hits # [])"
    by (simp add: ex_env_def)
  have d: "ex_hits \<noteq> []" by (simp add: ex_hits_def)
  have m: "CHAT_MODEL (ex_env None 200 200 (Some [ex_hits])) = S ''gpt-4o-mini''"
    by (simp add: ex_env_def)
  have qq: "q ex_req = S ''Why?''" by (simp add: ex_req_def)
  have "calls (snd (ask (ex_env None 200 200 (Some [ex_hits])) ex_state ex_req None)) =
          calls ex_state @
          [ChatCall (CHAT_MODEL (ex_env None 200 200 (Some [ex_hits])))
             [\<lparr>role = S ''system'',
                content = S ''You are a legal document assistant. Cite when possible.''\<rparr>,
              \<lparr>role = S ''user'',
                content = S ''Question: '' @ q ex_req @ [10, 10] @ S ''Context:'' @ [10] @
                          spec_context ex_hits\<rparr>]
             (2 / 10)]"
    using ask_context [OF a b c d] by (rule conjunct2)
  also have "calls ex_state = []" by (simp add: ex_state_def)
  finally show ?thesis using a d by (simp add: ex_context m qq)
qed

theorem ask_sources_witness:
  "check_action_key (ex_env None 200 200 (Some [ex_hits])) None = Inr () \<and> ex_hits \<noteq> [] \<and>
   dict_get (projr (fst (ask (ex_env None 200 200 (Some [ex_hits])) ex_state ex_req None)))
       (S ''sources'') =
     Some (JList [JDict [(S ''id'', JInt 1), (S ''filename'', JStr (S ''lease.txt'')),
                         (S ''snippet'', JStr (S ''A clause.''))],
                  JDict [(S ''id'', JInt 2), (S ''filename'', JStr (S ''unknown'')),
                         (S ''snippet'', JStr (replicate 240 66))]])"
proof -
  have a: "check_action_key (ex_env None 200 200 (Some [ex_hits])) None = Inr ()"
    by (rule ex_check)
  have b: "ensure_collection (ex_env None 200 200 (Some [ex_hits])) ex_state (AskRequest.client ex_req) =
             Some (S ''docs_acme'', \<lparr>store = [S ''docs_acme'' \<mapsto> Map.empty], calls = []\<rparr>)"
    using ex_ensure by (simp add: ex_req_def)
  have c: "chroma_query (ex_env None 200 200 (Some [ex_hits]))
             (the_col \<lparr>store = [S ''docs_acme'' \<mapsto> Map.empty], calls = []\<rparr> (S ''docs_acme''))
             (q ex_req) (top_k ex_req) = Some (ex_hits # [])"
    by (simp add: ex_env_def)
  have d: "ex_hits \<noteq> []" by (simp add: ex_hits_def)
  obtain resp s' where r: "ask (ex_env None 200 200 (Some [ex_hits])) ex_state ex_req None = (Inr resp, s')"
    unfolding ask_hits [OF a b c d] by (simp add: chat_answer_def ex_env_def Let_def)
  from ask_sources [OF a b c d r] obtain srcs where
    g: "dict_get resp (S ''sources'') = Some (JList srcs)" and l: "length srcs = length ex_hits"
    and n: "\<forall>i<length ex_hits. srcs ! i =
              JDict [(S ''id'', JInt (int (Suc i))),
                     (S ''filename'', JStr (fname_of (snd (ex_hits ! i)))),
                     (S ''snippet'', JStr (take 240 (fst (ex_hits ! i))))]"
    by blast
  from l have l2: "length srcs = 2" by (simp add: ex_hits_def)
  from n have "srcs ! 0 = JDict [(S ''id'', JInt 1), (S ''filename'', JStr (S ''lease.txt'')),
                         (S ''snippet'', JStr (S ''A clause.''))]"
    and "srcs ! 1 = JDict [(S ''id'', JInt 2), (S ''filename'', JStr (S ''unknown'')),
                         (S ''snippet'', JStr (replicate 240 66))]"
    by (simp_all add: ex_hits_def fname_of_def S_def)
  with l2 have "srcs = [JDict [(S ''id'', JInt 1), (S ''filename'', JStr (S ''lease.txt'')),
                         (S ''snippet'', JStr (S ''A clause.''))],
                  JDict [(S ''id'', JInt 2), (S ''filename'', JStr (S ''unknown'')),
                         (S ''snippet'', JStr (replicate 240 66))]]"
    by (cases srcs; cases "tl srcs") auto
  with a d g r show ?thesis by simp
qed

text \<open>
  Claim C6 as stated, with the rank under the key \<open>rank\<close>, fails: for two hits the
  sources of the response are not the entries \<open>{rank: i, filename, snippet}\<close>; an
  entry has no key \<open>rank\<close>.
\<close>

theorem ask_sources_rank_counterexample:
  "fst (ask (ex_env None 200 200 (Some [ex_hits])) ex_state ex_req None) =
     Inr (JDict [(S ''answer'', JStr (S ''An answer.'')),
                 (S ''sources'',
                  JList [JDict [(S ''id'', JInt 1), (S ''filename'', JStr (S ''lease.txt'')),
                                (S ''snippet'', JStr (S ''A clause.''))],
                         JDict [(S ''id'', JInt 2), (S ''filename'', JStr (S ''unknown'')),
                                (S ''snippet'', JStr (replicate 240 66))]])]) \<and>
   spec_sources ex_hits =
     [JDict [(S ''rank'', JInt 1), (S ''filename'', JStr (S ''lease.txt'')),
             (S ''snippet'', JStr (S ''A clause.''))],
      JDict [(S ''rank'', JInt 2), (S ''filename'', JStr (S ''unknown'')),
             (S ''snippet'', JStr (replicate 240 66))]] \<and>
   dict_get (projr (fst (ask (ex_env None 200 200 (Some [ex_hits])) ex_state ex_req None)))
       (S ''sources'') \<noteq> Some (JList (spec_sources ex_hits)) \<and>
   dict_get (JDict [(S ''id'', JInt 1), (S ''filename'', JStr (S ''lease.txt'')),
                    (S ''snippet'', JStr (S ''A clause.''))]) (S ''rank'') = None"
proof -
  have a: "check_action_key (ex_env None 200 200 (Some [ex_hits])) None = Inr ()"
    by (rule ex_check)
  have b: "ensure_collection (ex_env None 200 200 (Some [ex_hits])) ex_state (AskRequest.client ex_req) =
             Some (S ''docs_acme'', \<lparr>store = [S ''docs_acme'' \<mapsto> Map.empty], calls = []\<rparr>)"
    using ex_ensure by (simp add: ex_req_def)
  have c: "chroma_query (ex_env None 200 200 (Some [ex_hits]))
             (the_col \<lparr>store = [S ''docs_acme'' \<mapsto> Map.empty], calls = []\<rparr> (S ''docs_acme''))
             (q ex_req) (top_k ex_req) = Some (ex_hits # [])"
    by (simp add: ex_env_def)
  have d: "ex_hits \<noteq> []" by (simp add: ex_hits_def)
  have i: "id_sources ex_hits =
     [JDict [(S ''id'', JInt 1), (S ''filename'', JStr (S ''lease.txt'')),
             (S ''snippet'', JStr (S ''A clause.''))],
      JDict [(S ''id'', JInt 2), (S ''filename'', JStr (S ''unknown'')),
             (S ''snippet'', JStr (replicate 240 66))]]"
    by (simp add: id_sources_def ex_hits_def fname_of_def S_def upt_rec)
  have sp: "spec_sources ex_hits =
     [JDict [(S ''rank'', JInt 1), (S ''filename'', JStr (S ''lease.txt'')),
             (S ''snippet'', JStr (S ''A clause.''))],
      JDict [(S ''rank'', JInt 2), (S ''filename'', JStr (S ''unknown'')),
             (S ''snippet'', JStr (replicate 240 66))]]"
    by (simp add: spec_sources_def ex_hits_def fname_of_def S_def upt_rec)
  have f: "fst (ask (ex_env None 200 200 (Some [ex_hits])) ex_state ex_req None) =
     Inr (JDict [(S ''answer'', JStr (S ''An answer.'')), (S ''sources'', JList (id_sources ex_hits))])"
    unfolding ask_hits [OF a b c d] by (simp add: chat_answer_def ex_env_def Let_def)
  have ne: "S ''id'' \<noteq> S ''rank''" by (simp add: S_def)
  show ?thesis
    unfolding f sp unfolding i using ne by (simp add: dict_get_def S_def)
qed

section \<open>Ingest\<close>

lemma str_nat_ne [simp]: "str_nat n \<noteq> []"
  by (subst str_nat.simps) simp

lemma str_nat_inj: "str_nat m = str_nat n \<Longrightarrow> m = n"
proof (induction m arbitrary: n rule: str_nat.induct)
  case (1 m)
  show ?case
  proof (cases "m < 10")
    case True
    note m = this
    show ?thesis
    proof (cases "n < 10")
      case True
      with m 1(2) show ?thesis by (simp add: str_nat.simps [of m] str_nat.simps [of n])
    next
      case False
      with m 1(2) show ?thesis
        using str_nat_ne [of "n div 10"]
        by (auto simp: str_nat.simps [of m] str_nat.simps [of n])
    qed
  next
    case False
    note m = this
    show ?thesis
    proof (cases "n < 10")
      case True
      with m 1(2) show ?thesis
        using str_nat_ne [of "m div 10"]
        by (auto simp: str_nat.simps [of m] str_nat.simps [of n])
    next
      case False
      with m 1(2) have "str_nat (m div 10) = str_nat (n div 10)" and e: "m mod 10 = n mod 10"
        by (simp_all add: str_nat.simps [of m] str_nat.simps [of n])
      then have "m div 10 = n div 10" using 1(1) [OF m] by blast
      with e show ?thesis by (metis div_mult_mod_eq)
    qed
  qed
qed

lemma chunk_ids_distinct: "distinct (chunk_ids fname n)"
  by (auto simp: chunk_ids_def distinct_map inj_on_def dest: str_nat_inj)

lemma chunk_ids_length [simp]: "length (chunk_ids fname n) = n"
  by (simp add: chunk_ids_def)

lemma chunk_ids_nth: "i < n \<Longrightarrow> chunk_ids fname n ! i = fname @ S '':'' @ str_nat i"
  by (simp add: chunk_ids_def)

lemma upsert_entries_other:
  "k \<notin> fst ` set xs \<Longrightarrow> upsert_entries col xs k = col k"
  by (induction col xs rule: upsert_entries.induct) auto

lemma upsert_entries_nth:
  "distinct (map fst xs) \<Longrightarrow> i < length xs \<Longrightarrow> xs ! i = (k, d, m, v) \<Longrightarrow>
   upsert_entries col xs k = Some \<lparr>document = d, metadata = m, embedding = v\<rparr>"
proof (induction col xs arbitrary: i rule: upsert_entries.induct)
  case (1 col)
  then show ?case by simp
next
  case (2 col i' d' m' v' rest)
  show ?case
  proof (cases i)
    case 0
    with 2(4) have e: "i' = k" "d' = d" "m' = m" "v' = v" by simp_all
    from 2(2) e have "k \<notin> fst ` set rest" by simp
    then show ?thesis using e by (simp add: upsert_entries_other)
  next
    case (Suc j)
    from 2(2) have a: "distinct (map fst rest)" by simp
    from Suc 2(3) have b: "j < length rest" by simp
    from Suc 2(4) have c: "rest ! j = (k, d, m, v)" by simp
    have "upsert_entries (col(i' \<mapsto> \<lparr>document = d', metadata = m', embedding = v'\<rparr>)) rest k =
          Some \<lparr>document = d, metadata = m, embedding = v\<rparr>"
      using a b c by (rule 2(1))
    then show ?thesis by (simp only: upsert_entries.simps)
  qed
qed

lemma col_upsert_Some:
  assumes "col_upsert e s name ids docs metas embs = Some s'"
  shows "length docs = length ids \<and> length metas = length ids \<and> length embs = length ids \<and>
         calls s' = calls s \<and>
         store s' = (store s)(name \<mapsto>
           upsert_entries (the_col s name) (zip ids (zip docs (zip metas embs))))"
  using assms by (auto simp: col_upsert_def split: if_splits)

lemma embed_texts_calls:
  "calls (snd (embed_texts e s texts)) = calls s @ [EmbedCall (EMBED_MODEL e) texts]"
  by (simp add: embed_texts_def Let_def split: option.splits)

lemma embed_texts_Inr:
  "embed_texts e s texts = (Inr vecs, s1) \<Longrightarrow>
   status_code (post_embeddings e (EMBED_MODEL e) texts) = 200 \<and>
   parsed (post_embeddings e (EMBED_MODEL e) texts) = Some vecs \<and> store s1 = store s"
  by (auto simp: embed_texts_def Let_def split: option.splits if_splits)

lemma embed_texts_failed:
  "status_code (post_embeddings e (EMBED_MODEL e) texts) \<noteq> 200 \<Longrightarrow>
   fst (embed_texts e s texts) =
     Inl (HTTPException 502 (S ''Embed failed: '' @ resp_text (post_embeddings e (EMBED_MODEL e) texts)))"
  by (simp add: embed_texts_def Let_def)

lemma embed_texts_HTTP:
  "embed_texts e s texts = (Inl (HTTPException c d), s1) \<Longrightarrow> c = 502 \<and> store s1 = store s"
  by (auto simp: embed_texts_def Let_def split: option.splits if_splits)

lemma the_col_store_eq: "store s1 = store s \<Longrightarrow> the_col s1 name = the_col s name"
  by (simp add: the_col_def)

text \<open>The path of a request through \<open>ingest_json\<close> once the chunks are embedded.\<close>

lemma ingest_json_embedded:
  assumes "check_action_key e key = Inr ()"
    and "b64decode e (content_b64 item) = Inr bs"
    and "chunker (decode_utf8_ignore e bs) \<noteq> []"
    and "embed_texts e s (chunker (decode_utf8_ignore e bs)) = (Inr vecs, s1)"
  shows "ingest_json e s item key =
     (case ensure_collection e s1 (IngestItem.client item) of
        None \<Rightarrow> (Inl (Uncaught ''ValueError''), s1)
      | Some (col, s2) \<Rightarrow>
          (case col_upsert e s2 col
                  (chunk_ids (filename item) (length (chunker (decode_utf8_ignore e bs))))
                  (chunker (decode_utf8_ignore e bs))
                  (map (\<lambda>_. chunk_meta (filename item)) (chunker (decode_utf8_ignore e bs))) vecs of
             None \<Rightarrow> (Inl (Uncaught ''ValueError''), s2)
           | Some s3 \<Rightarrow>
               (Inr (JDict [(S ''ok'', JBool True),
                            (S ''client'', JStr (IngestItem.client item)),
                            (S ''filename'', JStr (filename item)),
                            (S ''added'', JInt (int (length (chunker (decode_utf8_ignore e bs)))))]),
                s3)))"
  using assms by (simp add: ingest_json_def Let_def split: option.splits prod.splits)

lemma ingest_json_Inr:
  assumes "ingest_json e s item key = (Inr resp, s')"
  shows "\<exists>bs vecs s1 s2. check_action_key e key = Inr () \<and>
           b64decode e (content_b64 item) = Inr bs \<and>
           chunker (decode_utf8_ignore e bs) \<noteq> [] \<and>
           embed_texts e s (chunker (decode_utf8_ignore e bs)) = (Inr vecs, s1) \<and>
           ensure_collection e s1 (IngestItem.client item) =
             Some (collection_name e (IngestItem.client item), s2) \<and>
           col_upsert e s2 (collection_name e (IngestItem.client item))
             (chunk_ids (filename item) (length (chunker (decode_utf8_ignore e bs))))
             (chunker (decode_utf8_ignore e bs))
             (map (\<lambda>_. chunk_meta (filename item)) (chunker (decode_utf8_ignore e bs))) vecs =
             Some s' \<and>
           resp = JDict [(S ''ok'', JBool True),
                         (S ''client'', JStr (IngestItem.client item)),
                         (S ''filename'', JStr (filename item)),
                         (S ''added'', JInt (int (length (chunker (decode_utf8_ignore e bs)))))]"
  using assms
  by (auto simp: ingest_json_def Let_def dest: ensure_collection_fst
      split: sum.splits prod.splits if_splits option.splits)

text \<open>
  Claim C1. For every successful \<open>ingest_json\<close> request whose decoded text splits
  into \<open>N\<close> chunks, the response reports \<open>added = N\<close>, and exactly the \<open>N\<close> tuples
  with the ids \<open>"<filename>:<i>"\<close> for \<open>i\<close> from 0 to \<open>N - 1\<close>, the chunks in their
  order as documents, the metadata \<open>{filename: <filename>}\<close> and the vectors the
  embedding capability returned in the same order are in the tenant's partition
  afterwards; every other id of the partition and every other partition is as before.
\<close>

theorem ingest_json_upserts:
  assumes "ingest_json e s item key = (Inr resp, s')"
  shows "\<exists>bs vecs. b64decode e (content_b64 item) = Inr bs \<and>
           (let chunks = chunker (decode_utf8_ignore e bs);
                name = collection_name e (IngestItem.client item)
            in chunks \<noteq> [] \<and>
               dict_get resp (S ''added'') = Some (JInt (int (length chunks))) \<and>
               parsed (post_embeddings e (EMBED_MODEL e) chunks) = Some vecs \<and>
               length vecs = length chunks \<and>
               (\<forall>i<length chunks.
                  the_col s' name (filename item @ S '':'' @ str_nat i) =
                    Some \<lparr>document = chunks ! i,
                          metadata = [S ''filename'' \<mapsto> filename item],
                          embedding = vecs ! i\<rparr>) \<and>
               (\<forall>k. (\<forall>i<length chunks. k \<noteq> filename item @ S '':'' @ str_nat i) \<longrightarrow>
                  the_col s' name k = the_col s name k) \<and>
               (\<forall>other. other \<noteq> name \<longrightarrow> store s' other = store s other))"
proof -
  from ingest_json_Inr [OF assms] obtain bs vecs s1 s2 where
    bs: "b64decode e (content_b64 item) = Inr bs"
    and ne: "chunker (decode_utf8_ignore e bs) \<noteq> []"
    and em: "embed_texts e s (chunker (decode_utf8_ignore e bs)) = (Inr vecs, s1)"
    and en: "ensure_collection e s1 (IngestItem.client item) =
               Some (collection_name e (IngestItem.client item), s2)"
    and up0: "col_upsert e s2 (collection_name e (IngestItem.client item))
             (chunk_ids (filename item) (length (chunker (decode_utf8_ignore e bs))))
             (chunker (decode_utf8_ignore e bs))
             (map (\<lambda>_. chunk_meta (filename item)) (chunker (decode_utf8_ignore e bs))) vecs =
             Some s'"
    and resp0: "resp = JDict [(S ''ok'', JBool True),
                         (S ''client'', JStr (IngestItem.client item)),
                         (S ''filename'', JStr (filename item)),
                         (S ''added'', JInt (int (length (chunker (decode_utf8_ignore e bs)))))]"
    by blast
  define chunks where "chunks = chunker (decode_utf8_ignore e bs)"
  define name where "name = collection_name e (IngestItem.client item)"
  define ids where "ids = chunk_ids (filename item) (length chunks)"
  define metas where "metas = map (\<lambda>_. chunk_meta (filename item)) chunks"
  define xs where "xs = zip ids (zip chunks (zip metas vecs))"
  from embed_texts_Inr [OF em] have pv: "parsed (post_embeddings e (EMBED_MODEL e) chunks) = Some vecs"
    and st1: "store s1 = store s" by (simp_all add: chunks_def)
  from up0 have up: "col_upsert e s2 name ids chunks metas vecs = Some s'"
    by (simp add: chunks_def name_def ids_def metas_def)
  from resp0 have resp: "resp = JDict [(S ''ok'', JBool True),
                       (S ''client'', JStr (IngestItem.client item)),
                       (S ''filename'', JStr (filename item)),
                       (S ''added'', JInt (int (length chunks)))]"
    by (simp add: chunks_def)
  from col_upsert_Some [OF up] have lv: "length vecs = length ids"
    and st': "store s' = (store s2)(name \<mapsto> upsert_entries (the_col s2 name) xs)"
    by (simp_all add: xs_def)
  have li: "length ids = length chunks" by (simp add: ids_def)
  have lm: "length metas = length chunks" by (simp add: metas_def)
  have c2: "the_col s2 name = the_col s name"
    using ensure_collection_the_col [OF en] the_col_store_eq [OF st1] by simp
  have tc: "the_col s' name = upsert_entries (the_col s name) xs"
    by (simp add: the_col_def [of s'] st' c2)
  have lx: "length xs = length chunks" using lv li lm by (simp add: xs_def)
  have fx: "map fst xs = ids" using lv li lm by (simp add: xs_def)
  then have dx: "distinct (map fst xs)" by (simp add: ids_def chunk_ids_distinct)
  have added: "dict_get resp (S ''added'') = Some (JInt (int (length chunks)))"
    by (simp add: resp dict_get_def S_def)
  have written: "the_col s' name (filename item @ S '':'' @ str_nat i) =
        Some \<lparr>document = chunks ! i, metadata = [S ''filename'' \<mapsto> filename item],
              embedding = vecs ! i\<rparr>"
    if i: "i < length chunks" for i
  proof -
    have "xs ! i = (filename item @ S '':'' @ str_nat i, chunks ! i,
                    [S ''filename'' \<mapsto> filename item], vecs ! i)"
      using i lv li lm by (simp add: xs_def ids_def metas_def chunk_ids_nth chunk_meta_def)
    with dx i lx show ?thesis unfolding tc by (simp add: upsert_entries_nth)
  qed
  have kept: "the_col s' name k = the_col s name k"
    if k: "\<forall>i<length chunks. k \<noteq> filename item @ S '':'' @ str_nat i" for k
  proof -
    from k have "k \<notin> set ids" by (auto simp: ids_def chunk_ids_def)
    with fx have "k \<notin> fst ` set xs" by (metis set_map)
    then show ?thesis unfolding tc by (rule upsert_entries_other)
  qed
  have others: "store s' other = store s other" if "other \<noteq> name" for other
    using that st1 ensure_collection_store [OF en]
    by (simp add: st' name_def split: option.splits)
  show ?thesis
    using bs ne added pv lv li written kept others
    unfolding Let_def ids_def chunks_def name_def
    by (intro exI [of _ bs] exI [of _ vecs]) simp
qed

lemma ex_chunks: "chunker [65, 10, 10, 66] = [[65], [66]]"
  by (simp add: chunker_def str_split_nn_def str_strip_def isspace_def)

lemma ex_decode: "b64decode (ex_env k es cs h) (content_b64 (ex_item (S ''QQoKQg==''))) = Inr [65, 10, 10, 66]"
  by (simp add: ex_env_def ex_item_def py_b64decode_def b64_digit_def S_def)

lemma ex_ensure_ingest:
  "ensure_collection (ex_env k es cs h) (ex_state\<lparr>calls := cl\<rparr>) (S ''Acme'') =
     Some (S ''docs_acme'', \<lparr>store = [S ''docs_acme'' \<mapsto> Map.empty], calls = cl\<rparr>)"
  by (simp add: ensure_collection_def collection_name_def ex_env_def ex_state_def
      ascii_lower_def ex_creates_def alnum_def S_def Let_def)

lemma ex_ingest_Inr:
  "\<exists>resp s'. ingest_json (ex_env None 200 200 None) ex_state (ex_item (S ''QQoKQg=='')) None = (Inr resp, s')"
proof -
  have em: "embed_texts (ex_env None 200 200 None) ex_state
              (chunker (decode_utf8_ignore (ex_env None 200 200 None) [65, 10, 10, 66])) =
            (Inr [[1], [1]], ex_state\<lparr>calls := [EmbedCall (S ''text-embedding-3-small'') [[65], [66]]]\<rparr>)"
    by (simp add: embed_texts_def ex_env_def ex_chunks ex_state_def Let_def S_def)
  have ne: "chunker (decode_utf8_ignore (ex_env None 200 200 None) [65, 10, 10, 66]) \<noteq> []"
    by (simp add: ex_env_def ex_chunks)
  have c: "IngestItem.client (ex_item (S ''QQoKQg=='')) = S ''Acme''" by (simp add: ex_item_def)
  show ?thesis
    unfolding ingest_json_embedded [OF ex_check ex_decode ne em] c ex_ensure_ingest
    by (simp add: col_upsert_def ex_env_def ex_chunks chunk_ids_def)
qed

theorem ingest_json_upserts_witness:
  "dict_get (projr (fst (ingest_json (ex_env None 200 200 None) ex_state (ex_item (S ''QQoKQg=='')) None)))
     (S ''added'') = Some (JInt 2) \<and>
   the_col (snd (ingest_json (ex_env None 200 200 None) ex_state (ex_item (S ''QQoKQg=='')) None))
     (S ''docs_acme'') (S ''f.txt:0'') =
     Some \<lparr>document = S ''A'', metadata = [S ''filename'' \<mapsto> S ''f.txt''], embedding = [1]\<rparr> \<and>
   the_col (snd (ingest_json (ex_env None 200 200 None) ex_state (ex_item (S ''QQoKQg=='')) None))
     (S ''docs_acme'') (S ''f.txt:1'') =
     Some \<lparr>document = S ''B'', metadata = [S ''filename'' \<mapsto> S ''f.txt''], embedding = [1]\<rparr>"
proof -
  from ex_ingest_Inr obtain resp s' where
    r: "ingest_json (ex_env None 200 200 None) ex_state (ex_item (S ''QQoKQg=='')) None = (Inr resp, s')"
    by blast
  have n: "collection_name (ex_env None 200 200 None) (IngestItem.client (ex_item (S ''QQoKQg==''))) = S ''docs_acme''"
    by (simp add: collection_name_def ex_env_def ex_item_def ascii_lower_def S_def)
  have f: "filename (ex_item (S ''QQoKQg=='')) = S ''f.txt''" by (simp add: ex_item_def)
  have p: "parsed (post_embeddings (ex_env None 200 200 None) (EMBED_MODEL (ex_env None 200 200 None))
             [[65], [66]]) = Some [[1], [1]]"
    by (simp add: ex_env_def)
  have d: "decode_utf8_ignore (ex_env None 200 200 None) = map unat" by (simp add: ex_env_def)
  from ingest_json_upserts [OF r]
  have a: "dict_get resp (S ''added'') = Some (JInt 2)"
    and w: "\<forall>i<2. the_col s' (S ''docs_acme'') (S ''f.txt'' @ S '':'' @ str_nat i) =
              Some \<lparr>document = [[65], [66]] ! i, metadata = [S ''filename'' \<mapsto> S ''f.txt''],
                    embedding = [[1], [1]] ! i\<rparr>"
    by (auto simp: Let_def ex_decode d ex_chunks n f p)
  from w have "the_col s' (S ''docs_acme'') (S ''f.txt'' @ S '':'' @ str_nat 0) =
      Some \<lparr>document = S ''A'', metadata = [S ''filename'' \<mapsto> S ''f.txt''], embedding = [1]\<rparr>"
    and "the_col s' (S ''docs_acme'') (S ''f.txt'' @ S '':'' @ str_nat 1) =
      Some \<lparr>document = S ''B'', metadata = [S ''filename'' \<mapsto> S ''f.txt''], embedding = [1]\<rparr>"
    by (simp_all add: S_def del: One_nat_def)
  moreover have "S ''f.txt'' @ S '':'' @ str_nat 0 = S ''f.txt:0''"
    and "S ''f.txt'' @ S '':'' @ str_nat 1 = S ''f.txt:1''"
    by (simp_all add: str_nat.simps S_def)
  ultimately show ?thesis using a r by simp
qed

lemma ingest_json_HTTP:
  assumes "ingest_json e s item key = (Inl (HTTPException c d), s')"
  shows "store s' = store s \<and> (c = 400 \<or> c = 401 \<or> c = 502)"
  using assms
  by (auto simp: ingest_json_def Let_def check_action_key_def
      dest: embed_texts_HTTP split: sum.splits prod.splits if_splits option.splits)

lemma py_b64decode_ab: "py_b64decode (S ''ab'') = Inl (S ''Incorrect padding'')"
  by (simp add: py_b64decode_def b64_digit_def S_def)

lemma py_b64decode_percent: "py_b64decode (S ''%%%'') = Inr []"
  by (simp add: py_b64decode_def b64_digit_def S_def)

lemma py_b64decode_spaces: "py_b64decode (S ''ICA='') = Inr [32, 32]"
  by (simp add: py_b64decode_def b64_digit_def S_def)

lemma chunker_Nil: "chunker [] = []"
  by (simp add: chunker_def str_split_nn_def str_strip_def)

text \<open>
  Claim C2, amended. An \<open>ingest_json\<close> request that fails writes nothing. A base64
  decode failure is answered with 400 "Invalid base64" and an empty chunk set with 400
  "No text chunks", the state as it was; a non-success response of the embedding
  capability is answered with 502, the store as it was; and whenever the handler raises
  an HTTP error, it is one of 400, 401 and 502 and the store is unchanged. With the
  standard decoder, \<open>"ab"\<close> is a decode failure (its padding is incorrect), and
  \<open>"%%%"\<close> is not: it decodes to nothing and is answered as an empty chunk set.
\<close>

theorem ingest_json_atomic:
  "(check_action_key e key = Inr () \<and> b64decode e (content_b64 item) = Inl msg \<longrightarrow>
      ingest_json e s item key = (Inl (HTTPException 400 (S ''Invalid base64: '' @ msg)), s)) \<and>
   (check_action_key e key = Inr () \<and> b64decode e (content_b64 item) = Inr bs \<and>
    chunker (decode_utf8_ignore e bs) = [] \<longrightarrow>
      ingest_json e s item key = (Inl (HTTPException 400 (S ''No text chunks'')), s)) \<and>
   (check_action_key e key = Inr () \<and> b64decode e (content_b64 item) = Inr bs \<and>
    chunker (decode_utf8_ignore e bs) \<noteq> [] \<and>
    status_code (post_embeddings e (EMBED_MODEL e) (chunker (decode_utf8_ignore e bs))) \<noteq> 200 \<longrightarrow>
      fst (ingest_json e s item key) =
        Inl (HTTPException 502 (S ''Embed failed: '' @
               resp_text (post_embeddings e (EMBED_MODEL e) (chunker (decode_utf8_ignore e bs))))) \<and>
      store (snd (ingest_json e s item key)) = store s) \<and>
   (fst (ingest_json e s item key) = Inl (HTTPException c d) \<longrightarrow>
      store (snd (ingest_json e s item key)) = store s \<and> (c = 400 \<or> c = 401 \<or> c = 502)) \<and>
   (check_action_key e key = Inr () \<and> b64decode e = py_b64decode \<and>
    content_b64 item = S ''ab'' \<longrightarrow>
      ingest_json e s item key =
        (Inl (HTTPException 400 (S ''Invalid base64: '' @ S ''Incorrect padding'')), s)) \<and>
   (check_action_key e key = Inr () \<and> b64decode e = py_b64decode \<and>
    decode_utf8_ignore e [] = [] \<and> content_b64 item = S ''%%%'' \<longrightarrow>
      ingest_json e s item key = (Inl (HTTPException 400 (S ''No text chunks'')), s))"
proof -
  have 1: "ingest_json e s item key = (Inl (HTTPException 400 (S ''Invalid base64: '' @ msg)), s)"
    if "check_action_key e key = Inr () \<and> b64decode e (content_b64 item) = Inl msg" for msg
    using that by (simp add: ingest_json_def)
  have 2: "ingest_json e s item key = (Inl (HTTPException 400 (S ''No text chunks'')), s)"
    if "check_action_key e key = Inr () \<and> b64decode e (content_b64 item) = Inr bs \<and>
        chunker (decode_utf8_ignore e bs) = []" for bs
    using that by (simp add: ingest_json_def)
  have 3: "fst (ingest_json e s item key) =
        Inl (HTTPException 502 (S ''Embed failed: '' @
               resp_text (post_embeddings e (EMBED_MODEL e) (chunker (decode_utf8_ignore e bs))))) \<and>
      store (snd (ingest_json e s item key)) = store s"
    if h: "check_action_key e key = Inr () \<and> b64decode e (content_b64 item) = Inr bs \<and>
        chunker (decode_utf8_ignore e bs) \<noteq> [] \<and>
        status_code (post_embeddings e (EMBED_MODEL e) (chunker (decode_utf8_ignore e bs))) \<noteq> 200"
  proof -
    obtain r s1 where em: "embed_texts e s (chunker (decode_utf8_ignore e bs)) = (r, s1)"
      by (cases "embed_texts e s (chunker (decode_utf8_ignore e bs))")
    from h have "fst (embed_texts e s (chunker (decode_utf8_ignore e bs))) =
        Inl (HTTPException 502 (S ''Embed failed: '' @
               resp_text (post_embeddings e (EMBED_MODEL e) (chunker (decode_utf8_ignore e bs)))))"
      by (simp add: embed_texts_failed)
    with em have r: "r = Inl (HTTPException 502 (S ''Embed failed: '' @
               resp_text (post_embeddings e (EMBED_MODEL e) (chunker (decode_utf8_ignore e bs)))))"
      by simp
    have "store s1 = store s"
      using em embed_texts_store [of e s "chunker (decode_utf8_ignore e bs)"] by simp
    then show ?thesis using h em r by (simp add: ingest_json_def)
  qed
  have 4: "store (snd (ingest_json e s item key)) = store s \<and> (c = 400 \<or> c = 401 \<or> c = 502)"
    if "fst (ingest_json e s item key) = Inl (HTTPException c d)"
    using that ingest_json_HTTP [of e s item key c d "snd (ingest_json e s item key)"]
    by (metis prod.collapse)
  have 5: "ingest_json e s item key =
        (Inl (HTTPException 400 (S ''Invalid base64: '' @ S ''Incorrect padding'')), s)"
    if "check_action_key e key = Inr () \<and> b64decode e = py_b64decode \<and>
        content_b64 item = S ''ab''"
    using that 1 [of "S ''Incorrect padding''"] by (simp add: py_b64decode_ab)
  have 6: "ingest_json e s item key = (Inl (HTTPException 400 (S ''No text chunks'')), s)"
    if "check_action_key e key = Inr () \<and> b64decode e = py_b64decode \<and>
        decode_utf8_ignore e [] = [] \<and> content_b64 item = S ''%%%''"
    using that 2 [of "[]"] by (simp add: py_b64decode_percent chunker_Nil)
  from 1 2 3 4 5 6 show ?thesis by blast
qed

theorem ingest_json_atomic_witness:
  "ingest_json (ex_env None 200 200 None) ex_state (ex_item (S ''ab'')) None =
     (Inl (HTTPException 400 (S ''Invalid base64: Incorrect padding'')), ex_state) \<and>
   ingest_json (ex_env None 200 200 None) ex_state (ex_item (S ''%%%'')) None =
     (Inl (HTTPException 400 (S ''No text chunks'')), ex_state) \<and>
   ingest_json (ex_env None 200 200 None) ex_state (ex_item (S ''ICA='')) None =
     (Inl (HTTPException 400 (S ''No text chunks'')), ex_state) \<and>
   fst (ingest_json (ex_env None 500 200 None) ex_state (ex_item (S ''QQoKQg=='')) None) =
     Inl (HTTPException 502 (S ''Embed failed: embed'')) \<and>
   store (snd (ingest_json (ex_env None 500 200 None) ex_state (ex_item (S ''QQoKQg=='')) None)) =
     store ex_state"
proof -
  have dec: "b64decode (ex_env None 200 200 None) = py_b64decode" by (simp add: ex_env_def)
  have a: "content_b64 (ex_item (S ''ab'')) = S ''ab''" by (simp add: ex_item_def)
  have b: "content_b64 (ex_item (S ''%%%'')) = S ''%%%''" by (simp add: ex_item_def)
  have b': "decode_utf8_ignore (ex_env None 200 200 None) [] = []" by (simp add: ex_env_def)
  have c: "b64decode (ex_env None 200 200 None) (content_b64 (ex_item (S ''ICA=''))) = Inr [32, 32]"
    by (simp add: ex_env_def ex_item_def py_b64decode_spaces)
  have c': "chunker (decode_utf8_ignore (ex_env None 200 200 None) [32, 32]) = []"
    by (simp add: ex_env_def chunker_def str_split_nn_def str_strip_def isspace_def)
  have d': "chunker (decode_utf8_ignore (ex_env None 500 200 None) [65, 10, 10, 66]) \<noteq> []"
    by (simp add: ex_env_def ex_chunks)
  have d'': "status_code (post_embeddings (ex_env None 500 200 None) (EMBED_MODEL (ex_env None 500 200 None))
               (chunker (decode_utf8_ignore (ex_env None 500 200 None) [65, 10, 10, 66]))) \<noteq> 200"
    by (simp add: ex_env_def)
  have t: "resp_text (post_embeddings (ex_env None 500 200 None) (EMBED_MODEL (ex_env None 500 200 None))
               (chunker (decode_utf8_ignore (ex_env None 500 200 None) [65, 10, 10, 66]))) = S ''embed''"
    by (simp add: ex_env_def)
  have j: "S ''Invalid base64: '' @ S ''Incorrect padding'' = S ''Invalid base64: Incorrect padding''"
    and j': "S ''Embed failed: '' @ S ''embed'' = S ''Embed failed: embed''"
    by (simp_all add: S_def)
  from ingest_json_atomic [where e = "ex_env None 200 200 None" and key = None and item = "ex_item (S ''ab'')"
      and s = ex_state] dec a ex_check
  have 1: "ingest_json (ex_env None 200 200 None) ex_state (ex_item (S ''ab'')) None =
     (Inl (HTTPException 400 (S ''Invalid base64: Incorrect padding'')), ex_state)"
    by (simp only: j simp_thms)
  from ingest_json_atomic [where e = "ex_env None 200 200 None" and key = None and item = "ex_item (S ''%%%'')"
      and s = ex_state] dec b b' ex_check
  have 2: "ingest_json (ex_env None 200 200 None) ex_state (ex_item (S ''%%%'')) None =
     (Inl (HTTPException 400 (S ''No text chunks'')), ex_state)"
    by blast
  from ingest_json_atomic [where e = "ex_env None 200 200 None" and key = None and item = "ex_item (S ''ICA='')"
      and bs = "[32, 32]" and s = ex_state] c c' ex_check
  have 3: "ingest_json (ex_env None 200 200 None) ex_state (ex_item (S ''ICA='')) None =
     (Inl (HTTPException 400 (S ''No text chunks'')), ex_state)"
    by blast
  from ingest_json_atomic [where e = "ex_env None 500 200 None" and key = None and item = "ex_item (S ''QQoKQg=='')"
      and bs = "[65, 10, 10, 66]" and s = ex_state] ex_decode d' d'' ex_check
  have 4: "fst (ingest_json (ex_env None 500 200 None) ex_state (ex_item (S ''QQoKQg=='')) None) =
     Inl (HTTPException 502 (S ''Embed failed: '' @ S ''embed'')) \<and>
   store (snd (ingest_json (ex_env None 500 200 None) ex_state (ex_item (S ''QQoKQg=='')) None)) =
     store ex_state"
    unfolding t by blast
  from 1 2 3 4 show ?thesis by (simp only: j' simp_thms)
qed

text \<open>
  Claim C2 as stated names \<open>"%%%"\<close> as a base64 decode failure answered with
  "Invalid base64". The standard decoder does not refuse it: it decodes to nothing, and
  the request is answered with "No text chunks".
\<close>

theorem ingest_json_percent_counterexample:
  "b64decode (ex_env None 200 200 None) (content_b64 (ex_item (S ''%%%''))) = Inr [] \<and>
   ingest_json (ex_env None 200 200 None) ex_state (ex_item (S ''%%%'')) None =
     (Inl (HTTPException 400 (S ''No text chunks'')), ex_state) \<and>
   \<not> prefix (S ''Invalid base64'') (S ''No text chunks'')"
proof -
  have a: "b64decode (ex_env None 200 200 None) (content_b64 (ex_item (S ''%%%''))) = Inr []"
    by (simp add: ex_env_def ex_item_def py_b64decode_percent)
  have "chunker (decode_utf8_ignore (ex_env None 200 200 None) []) = []"
    by (simp add: ex_env_def chunker_Nil)
  with a have "ingest_json (ex_env None 200 200 None) ex_state (ex_item (S ''%%%'')) None =
     (Inl (HTTPException 400 (S ''No text chunks'')), ex_state)"
    by (simp add: ingest_json_def ex_check)
  moreover have "\<not> prefix (S ''Invalid base64'') (S ''No text chunks'')"
    by (simp add: S_def)
  ultimately show ?thesis using a by simp
qed

section \<open>Partitions\<close>

lemma stats_None:
  "ensure_collection e s c = None \<Longrightarrow> stats e s c = (Inl (Uncaught ''ValueError''), s)"
  by (simp add: stats_def)

lemma stats_Some:
  "ensure_collection e s c = Some (col, s1) \<Longrightarrow>
   stats e s c =
     (Inr (JDict [(S ''client'', JStr c), (S ''count'', JInt (col_count s1 (collection_name e c)))]), s1)"
  using ensure_collection_fst [of e s c col s1] by (simp add: stats_def)

lemma search_None:
  "ensure_collection e s c = None \<Longrightarrow> search e s c qt k = (Inl (Uncaught ''ValueError''), s)"
  by (simp add: search_def)

lemma search_Some:
  "ensure_collection e s c = Some (col, s1) \<Longrightarrow> snd (search e s c qt k) = s1"
  by (simp add: search_def split: option.splits list.splits)

lemma ask_None:
  "check_action_key e key = Inr () \<Longrightarrow> ensure_collection e s (AskRequest.client req) = None \<Longrightarrow>
   ask e s req key = (Inl (Uncaught ''ValueError''), s)"
  by (simp add: ask_def)

lemma ask_Some:
  "check_action_key e key = Inr () \<Longrightarrow>
   ensure_collection e s (AskRequest.client req) = Some (col, s1) \<Longrightarrow>
   store (snd (ask e s req key)) = store s1"
  by (auto simp: ask_def Let_def chat_answer_def
      split: option.splits list.splits prod.splits sum.splits if_splits)

lemma ensure_collection_dom_mono:
  "ensure_collection e s c = Some (col, s1) \<Longrightarrow> dom (store s) \<subseteq> dom (store s1)"
  by (auto simp: ensure_collection_dom)

lemma stats_dom: "dom (store s) \<subseteq> dom (store (snd (stats e s c)))"
proof (cases "ensure_collection e s c")
  case None
  then show ?thesis by (simp add: stats_None)
next
  case (Some p)
  then obtain col s1 where "ensure_collection e s c = Some (col, s1)" by (cases p) simp
  then show ?thesis using ensure_collection_dom_mono by (simp add: stats_Some)
qed

lemma search_dom: "dom (store s) \<subseteq> dom (store (snd (search e s c qt k)))"
proof (cases "ensure_collection e s c")
  case None
  then show ?thesis by (simp add: search_None)
next
  case (Some p)
  then obtain col s1 where "ensure_collection e s c = Some (col, s1)" by (cases p) simp
  then show ?thesis using ensure_collection_dom_mono by (simp add: search_Some)
qed

lemma ask_dom: "dom (store s) \<subseteq> dom (store (snd (ask e s req key)))"
proof (cases "check_action_key e key")
  case (Inl err)
  then show ?thesis by (simp add: ask_def)
next
  case (Inr u)
  then have ck: "check_action_key e key = Inr ()" by simp
  show ?thesis
  proof (cases "ensure_collection e s (AskRequest.client req)")
    case None
    with ck show ?thesis by (simp add: ask_None)
  next
    case (Some p)
    then obtain col s1 where en: "ensure_collection e s (AskRequest.client req) = Some (col, s1)"
      by (cases p) simp
    then show ?thesis using ensure_collection_dom_mono by (simp add: ask_Some [OF ck en])
  qed
qed

lemma ingest_json_resolved:
  assumes "check_action_key e key = Inr ()"
    and "b64decode e (content_b64 item) = Inr bs"
    and "chunker (decode_utf8_ignore e bs) \<noteq> []"
    and "embed_texts e s (chunker (decode_utf8_ignore e bs)) = (Inr vecs, s1)"
  shows "(ensure_collection e s1 (IngestItem.client item) = None \<longrightarrow>
            ingest_json e s item key = (Inl (Uncaught ''ValueError''), s1)) \<and>
         (ensure_collection e s1 (IngestItem.client item) = Some (col, s2) \<longrightarrow>
            (fst (ingest_json e s item key) = Inl (Uncaught ''ValueError'') \<longrightarrow>
               snd (ingest_json e s item key) = s2) \<and>
            collection_name e (IngestItem.client item) \<in> dom (store (snd (ingest_json e s item key))) \<and>
            dom (store s2) \<subseteq> dom (store (snd (ingest_json e s item key))))"
proof -
  have "col = collection_name e (IngestItem.client item) \<and>
        collection_name e (IngestItem.client item) \<in> dom (store s2)"
    if "ensure_collection e s1 (IngestItem.client item) = Some (col, s2)"
    using that ensure_collection_fst [OF that] ensure_collection_dom [OF that] by simp
  then show ?thesis
    unfolding ingest_json_embedded [OF assms]
    by (auto simp: col_upsert_def split: option.splits if_splits)
qed

lemma ingest_json_dom: "dom (store s) \<subseteq> dom (store (snd (ingest_json e s item key)))"
proof (cases "check_action_key e key")
  case (Inl err)
  then show ?thesis by (simp add: ingest_json_def)
next
  case ck0: (Inr u)
  then have ck: "check_action_key e key = Inr ()" by simp
  show ?thesis
  proof (cases "b64decode e (content_b64 item)")
    case (Inl msg)
    with ck show ?thesis by (simp add: ingest_json_def)
  next
    case bs: (Inr bs)
    show ?thesis
    proof (cases "chunker (decode_utf8_ignore e bs) = []")
      case True
      with ck bs show ?thesis by (simp add: ingest_json_def)
    next
      case ne: False
      obtain r s1 where em: "embed_texts e s (chunker (decode_utf8_ignore e bs)) = (r, s1)"
        by (cases "embed_texts e s (chunker (decode_utf8_ignore e bs))")
      then have st1: "store s1 = store s"
        using embed_texts_store [of e s "chunker (decode_utf8_ignore e bs)"] by simp
      show ?thesis
      proof (cases r)
        case (Inl err)
        with ck bs ne em st1 show ?thesis by (simp add: ingest_json_def)
      next
        case (Inr vecs)
        with em have em': "embed_texts e s (chunker (decode_utf8_ignore e bs)) = (Inr vecs, s1)"
          by simp
        show ?thesis
        proof (cases "ensure_collection e s1 (IngestItem.client item)")
          case None
          then show ?thesis
            using ingest_json_resolved [OF ck bs ne em'] st1 by simp
        next
          case (Some p)
          then obtain col s2 where en: "ensure_collection e s1 (IngestItem.client item) = Some (col, s2)"
            by (cases p) simp
          from ingest_json_resolved [OF ck bs ne em', of col s2] en
          have "dom (store s2) \<subseteq> dom (store (snd (ingest_json e s item key)))" by simp
          with ensure_collection_dom_mono [OF en] st1 show ?thesis by auto
        qed
      qed
    qed
  qed
qed

text \<open>
  Claim C9, amended. Every endpoint that takes a tenant id resolves the partition of the
  tenant with create-if-absent semantics: an existing partition is returned and the
  state kept; an absent one whose name the store accepts is created empty; for an absent
  one whose name the store refuses, \<open>create_collection\<close> raises, the request fails
  uncaught and the state is as it was when the partition was resolved. \<open>stats\<close> and
  \<open>search\<close> resolve it first, \<open>ask\<close> once the key check has passed, \<open>ingest_json\<close>
  once the chunks are embedded, and the partition it created stays when the store then
  refuses the batch. For a tenant never seen before whose name the store accepts,
  \<open>stats\<close> creates the empty partition, so changes the store, and returns count 0. No
  endpoint deletes a partition.
\<close>

theorem partition_create_if_absent:
  "(store s (collection_name e c) = Some x \<longrightarrow>
      ensure_collection e s c = Some (collection_name e c, s)) \<and>
   (store s (collection_name e c) = None \<and> chroma_creates e (collection_name e c) \<longrightarrow>
      ensure_collection e s c =
        Some (collection_name e c, s\<lparr>store := (store s)(collection_name e c \<mapsto> Map.empty)\<rparr>) \<and>
      stats e s c =
        (Inr (JDict [(S ''client'', JStr c), (S ''count'', JInt 0)]),
         s\<lparr>store := (store s)(collection_name e c \<mapsto> Map.empty)\<rparr>) \<and>
      snd (stats e s c) \<noteq> s) \<and>
   (store s (collection_name e c) = None \<and> \<not> chroma_creates e (collection_name e c) \<longrightarrow>
      ensure_collection e s c = None) \<and>
   (ensure_collection e s c = None \<longrightarrow>
      stats e s c = (Inl (Uncaught ''ValueError''), s) \<and>
      search e s c qt k = (Inl (Uncaught ''ValueError''), s)) \<and>
   (ensure_collection e s c = Some (col, s1) \<longrightarrow>
      snd (stats e s c) = s1 \<and> snd (search e s c qt k) = s1) \<and>
   (check_action_key e key = Inr () \<and> ensure_collection e s (AskRequest.client req) = None \<longrightarrow>
      ask e s req key = (Inl (Uncaught ''ValueError''), s)) \<and>
   (check_action_key e key = Inr () \<and>
    ensure_collection e s (AskRequest.client req) = Some (cola, sa) \<longrightarrow>
      store (snd (ask e s req key)) = store sa) \<and>
   (check_action_key e key = Inr () \<and> b64decode e (content_b64 item) = Inr bs \<and>
    chunker (decode_utf8_ignore e bs) \<noteq> [] \<and>
    embed_texts e s (chunker (decode_utf8_ignore e bs)) = (Inr vecs, se) \<longrightarrow>
      (ensure_collection e se (IngestItem.client item) = None \<longrightarrow>
         ingest_json e s item key = (Inl (Uncaught ''ValueError''), se)) \<and>
      (ensure_collection e se (IngestItem.client item) = Some (coli, si) \<longrightarrow>
         (fst (ingest_json e s item key) = Inl (Uncaught ''ValueError'') \<longrightarrow>
            snd (ingest_json e s item key) = si) \<and>
         collection_name e (IngestItem.client item) \<in>
           dom (store (snd (ingest_json e s item key))))) \<and>
   dom (store s) \<subseteq> dom (store (snd (home s))) \<and>
   dom (store s) \<subseteq> dom (store (snd (stats e s c))) \<and>
   dom (store s) \<subseteq> dom (store (snd (search e s c qt k))) \<and>
   dom (store s) \<subseteq> dom (store (snd (ask e s req key))) \<and>
   dom (store s) \<subseteq> dom (store (snd (ingest_json e s item key)))"
proof -
  have 1: "ensure_collection e s c = Some (collection_name e c, s)"
    if "store s (collection_name e c) = Some x"
    using that by (simp add: ensure_collection_def Let_def)
  have 2: "ensure_collection e s c =
        Some (collection_name e c, s\<lparr>store := (store s)(collection_name e c \<mapsto> Map.empty)\<rparr>) \<and>
      stats e s c =
        (Inr (JDict [(S ''client'', JStr c), (S ''count'', JInt 0)]),
         s\<lparr>store := (store s)(collection_name e c \<mapsto> Map.empty)\<rparr>) \<and>
      snd (stats e s c) \<noteq> s"
    if n: "store s (collection_name e c) = None \<and> chroma_creates e (collection_name e c)"
  proof -
    from n have en: "ensure_collection e s c =
        Some (collection_name e c, s\<lparr>store := (store s)(collection_name e c \<mapsto> Map.empty)\<rparr>)"
      by (simp add: ensure_collection_def Let_def)
    have "s\<lparr>store := (store s)(collection_name e c \<mapsto> Map.empty)\<rparr> \<noteq> s"
    proof
      assume "s\<lparr>store := (store s)(collection_name e c \<mapsto> Map.empty)\<rparr> = s"
      then have "store (s\<lparr>store := (store s)(collection_name e c \<mapsto> Map.empty)\<rparr>) (collection_name e c) =
                 store s (collection_name e c)"
        by simp
      with n show False by simp
    qed
    then show ?thesis using en by (simp add: stats_Some [OF en] col_count_def the_col_def)
  qed
  have 3: "ensure_collection e s c = None"
    if "store s (collection_name e c) = None \<and> \<not> chroma_creates e (collection_name e c)"
    using that by (simp add: ensure_collection_None)
  have 4: "snd (stats e s c) = s1 \<and> snd (search e s c qt k) = s1"
    if "ensure_collection e s c = Some (col, s1)"
    using that by (simp add: stats_Some search_Some)
  have 5: "dom (store s) \<subseteq> dom (store (snd (home s)))" by (simp add: home_def)
  have 6: "(ensure_collection e se (IngestItem.client item) = None \<longrightarrow>
         ingest_json e s item key = (Inl (Uncaught ''ValueError''), se)) \<and>
      (ensure_collection e se (IngestItem.client item) = Some (coli, si) \<longrightarrow>
         (fst (ingest_json e s item key) = Inl (Uncaught ''ValueError'') \<longrightarrow>
            snd (ingest_json e s item key) = si) \<and>
         collection_name e (IngestItem.client item) \<in>
           dom (store (snd (ingest_json e s item key))))"
    if "check_action_key e key = Inr () \<and> b64decode e (content_b64 item) = Inr bs \<and>
        chunker (decode_utf8_ignore e bs) \<noteq> [] \<and>
        embed_texts e s (chunker (decode_utf8_ignore e bs)) = (Inr vecs, se)"
    using that ingest_json_resolved [of e key item bs s vecs se coli si] by blast
  show ?thesis
    using 1 2 3 4 5 6 stats_None [of e s c] search_None [of e s c qt k]
      ask_None [of e key s req] ask_Some [of e key s req cola sa]
      stats_dom [of s e c] search_dom [of s e c qt k] ask_dom [of s e req key]
      ingest_json_dom [of s e item key]
    by blast
qed

theorem partition_create_if_absent_witness:
  "store ex_state (collection_name (ex_env None 200 200 None) (S ''Acme'')) = None \<and>
   chroma_creates (ex_env None 200 200 None) (collection_name (ex_env None 200 200 None) (S ''Acme'')) \<and>
   stats (ex_env None 200 200 None) ex_state (S ''Acme'') =
     (Inr (JDict [(S ''client'', JStr (S ''Acme'')), (S ''count'', JInt 0)]),
      \<lparr>store = [S ''docs_acme'' \<mapsto> Map.empty], calls = []\<rparr>) \<and>
   check_action_key (ex_env None 200 200 None) None = Inr () \<and>
   store (snd (ask (ex_env None 200 200 None) ex_state ex_req None)) = [S ''docs_acme'' \<mapsto> Map.empty] \<and>
   S ''docs_acme'' \<in>
     dom (store (snd (ingest_json (ex_env None 200 200 None) ex_state (ex_item (S ''QQoKQg=='')) None))) \<and>
   \<not> chroma_creates (ex_env None 200 200 None) (collection_name (ex_env None 200 200 None) []) \<and>
   search (ex_env None 200 200 None) ex_state [] (S ''Why?'') 6 = (Inl (Uncaught ''ValueError''), ex_state)"
proof -
  have n: "collection_name (ex_env None 200 200 None) (S ''Acme'') = S ''docs_acme''"
    by (simp add: collection_name_def ex_env_def ascii_lower_def S_def)
  have a: "store ex_state (collection_name (ex_env None 200 200 None) (S ''Acme'')) = None"
    by (simp add: ex_state_def)
  have cr: "chroma_creates (ex_env None 200 200 None) (collection_name (ex_env None 200 200 None) (S ''Acme''))"
    unfolding n by (simp add: ex_env_def ex_creates_def alnum_def S_def)
  have c: "AskRequest.client ex_req = S ''Acme''" by (simp add: ex_req_def)
  have i: "IngestItem.client (ex_item (S ''QQoKQg=='')) = S ''Acme''" by (simp add: ex_item_def)
  have u: "ex_state\<lparr>store := (store ex_state)(S ''docs_acme'' \<mapsto> Map.empty)\<rparr> =
           \<lparr>store = [S ''docs_acme'' \<mapsto> Map.empty], calls = []\<rparr>"
    by (simp add: ex_state_def)
  have em: "embed_texts (ex_env None 200 200 None) ex_state
              (chunker (decode_utf8_ignore (ex_env None 200 200 None) [65, 10, 10, 66])) =
            (Inr [[1], [1]], ex_state\<lparr>calls := [EmbedCall (S ''text-embedding-3-small'') [[65], [66]]]\<rparr>)"
    by (simp add: embed_texts_def ex_env_def ex_chunks ex_state_def Let_def S_def)
  have ne: "chunker (decode_utf8_ignore (ex_env None 200 200 None) [65, 10, 10, 66]) \<noteq> []"
    by (simp add: ex_env_def ex_chunks)
  have n0: "collection_name (ex_env None 200 200 None) [] = S ''docs_''"
    by (simp add: collection_name_def ex_env_def ascii_lower_def S_def)
  have a0: "store ex_state (collection_name (ex_env None 200 200 None) []) = None"
    by (simp add: ex_state_def)
  have cr0: "\<not> chroma_creates (ex_env None 200 200 None) (collection_name (ex_env None 200 200 None) [])"
    unfolding n0 by (simp add: ex_env_def ex_creates_def alnum_def S_def)
  note t1 = partition_create_if_absent [where e = "ex_env None 200 200 None" and s = ex_state
        and c = "S ''Acme''" and key = None and req = ex_req
        and item = "ex_item (S ''QQoKQg=='')" and bs = "[65, 10, 10, 66]" and vecs = "[[1], [1]]"
        and se = "ex_state\<lparr>calls := [EmbedCall (S ''text-embedding-3-small'') [[65], [66]]]\<rparr>"
        and cola = "S ''docs_acme''" and sa = "\<lparr>store = [S ''docs_acme'' \<mapsto> Map.empty], calls = []\<rparr>"
        and coli = "S ''docs_acme''"
        and si = "\<lparr>store = [S ''docs_acme'' \<mapsto> Map.empty],
                   calls = [EmbedCall (S ''text-embedding-3-small'') [[65], [66]]]\<rparr>"]
  note t2 = partition_create_if_absent [where e = "ex_env None 200 200 None" and s = ex_state
        and c = "[]" and qt = "S ''Why?''" and k = 6]
  from t1 a cr have st: "stats (ex_env None 200 200 None) ex_state (S ''Acme'') =
     (Inr (JDict [(S ''client'', JStr (S ''Acme'')), (S ''count'', JInt 0)]),
      \<lparr>store = [S ''docs_acme'' \<mapsto> Map.empty], calls = []\<rparr>)"
    by (simp add: n u)
  from t1 ex_check [of 200 200 None None] ex_ensure [of None 200 200 None]
  have ak: "store (snd (ask (ex_env None 200 200 None) ex_state ex_req None)) = [S ''docs_acme'' \<mapsto> Map.empty]"
    by (simp add: c)
  from t1 ex_check [of 200 200 None None] ex_decode [of None 200 200 None] ne em
    ex_ensure_ingest [of None 200 200 None "[EmbedCall (S ''text-embedding-3-small'') [[65], [66]]]"]
  have ing: "S ''docs_acme'' \<in>
     dom (store (snd (ingest_json (ex_env None 200 200 None) ex_state (ex_item (S ''QQoKQg=='')) None)))"
    by (simp add: i n)
  from t2 a0 cr0 have se: "search (ex_env None 200 200 None) ex_state [] (S ''Why?'') 6 =
      (Inl (Uncaught ''ValueError''), ex_state)"
    by blast
  from a cr st ak ing cr0 se ex_check [of 200 200 None None] show ?thesis by blast
qed

text \<open>
  Claim C9 as stated, for every tenant never seen before, fails: the tenant with the
  empty id has the partition name \<open>docs_\<close>, which the store refuses; \<open>stats\<close> raises,
  returns no count and creates no partition.
\<close>

theorem stats_refused_counterexample:
  "collection_name (ex_env None 200 200 None) [] = S ''docs_'' \<and>
   store ex_state (S ''docs_'') = None \<and>
   stats (ex_env None 200 200 None) ex_state [] = (Inl (Uncaught ''ValueError''), ex_state) \<and>
   store (snd (stats (ex_env None 200 200 None) ex_state [])) (S ''docs_'') = None"
proof -
  have n0: "collection_name (ex_env None 200 200 None) [] = S ''docs_''"
    by (simp add: collection_name_def ex_env_def ascii_lower_def S_def)
  have a0: "store ex_state (S ''docs_'') = None" by (simp add: ex_state_def)
  have cr0: "\<not> chroma_creates (ex_env None 200 200 None) (S ''docs_'')"
    by (simp add: ex_env_def ex_creates_def alnum_def S_def)
  have "ensure_collection (ex_env None 200 200 None) ex_state [] = None"
    using n0 a0 cr0 by (simp add: ensure_collection_None)
  then have "stats (ex_env None 200 200 None) ex_state [] = (Inl (Uncaught ''ValueError''), ex_state)"
    by (rule stats_None)
  with n0 a0 show ?thesis by simp
qed

end
